theory Spec2Isabelle
  imports Complex_Main "HOL-Library.Word"
begin

section \<open>Particle boundary conditions: the constructor of PartBoundCond\<close>

text \<open>
  The constructor \<^verbatim>\<open>PartBoundCond::PartBoundCond(Params&, Species*, Patch*)\<close> of
  \<^verbatim>\<open>src/Species/PartBoundCond.cpp\<close> reads the parameters, the species and the patch,
  computes the limits of the local domain, checks the particle boundary conditions
  against the electromagnetic ones and stores one function pointer per face.

  Conventions of the embedding:
  \<^item> a \<^verbatim>\<open>double\<close> is a \<open>real\<close>; the constructor only multiplies, compares and
    copies them;
  \<^item> a \<^verbatim>\<open>std::vector\<close> is a list, and \<^verbatim>\<open>v[i]\<close> beyond the size of the vector
    (undefined behaviour in C++) is the outcome \<open>OutOfRange\<close>;
  \<^item> a function pointer is a value of \<open>bc_fun option\<close>, \<open>None\<close> for \<^verbatim>\<open>NULL\<close>;
  \<^item> a \<^verbatim>\<open>double\<close> member that has not been assigned is \<open>None\<close>;
  \<^item> the numbers of dimensions and the loop index \<^verbatim>\<open>iDim\<close> are natural numbers;
  \<^item> \<^verbatim>\<open>MESSAGE(...)\<close> only prints and is left out.
\<close>

datatype face = Xmin | Xmax | Ymin | Ymax | Zmin | Zmax

text \<open>The functions of \<^verbatim>\<open>BoundaryConditionType.h\<close> whose addresses the constructor stores.\<close>

datatype bc_fun =
    reflect_particle
  | remove_particle
  | remove_photon
  | stop_particle
  | thermalize_particle

text \<open>
  Modelled from the spec: the macro \<^verbatim>\<open>ERROR\<close> of \<^verbatim>\<open>Tools.h\<close> is not among the
  sources. The specification calls these configuration errors fatal at setup, so
  \<^verbatim>\<open>ERROR(...)\<close> ends the construction: the constructor returns \<open>Inl\<close> of the error
  and no object. One constructor per call of \<^verbatim>\<open>ERROR\<close> in the file, with the values
  its message prints:
  \<^item> \<open>PeriodicRequired name iDim\<close>: line 84;
  \<^item> \<open>UnknownBC f v\<close>: lines 118, 138, 159, 178, 195, 210, face \<open>f\<close> and the value read;
  \<^item> \<open>OnlyRemoveRz\<close>: line 255.
\<close>

datatype error =
    PeriodicRequired string nat
  | UnknownBC face string
  | OnlyRemoveRz
  | OutOfRange

record Params =
  geometry :: string
  nDim_particle :: nat
  nDim_field :: nat
  cell_length :: "real list"
  n_space_global :: "nat list"
  EM_BCs :: "string list list"
  hasWindow :: bool

record Particles =
  tracked :: bool

record Species =
  name :: string
  mass :: real
  particles :: Particles
  boundary_conditions :: "string list list"

text \<open>
  Of a patch the constructor calls \<^verbatim>\<open>getDomainLocalMin(i)\<close>,
  \<^verbatim>\<open>getDomainLocalMax(i)\<close> and the six predicates \<^verbatim>\<open>isXmin()\<close> ... \<^verbatim>\<open>isZmax()\<close>.
\<close>

record Patch =
  getDomainLocalMin :: "nat \<Rightarrow> real"
  getDomainLocalMax :: "nat \<Rightarrow> real"
  isXmin :: bool
  isXmax :: bool
  isYmin :: bool
  isYmax :: bool
  isZmin :: bool
  isZmax :: bool

text \<open>The members of the object under construction.\<close>

record PartBoundCond =
  isRZ :: bool
  nDim_particle :: nat
  nDim_field :: nat
  x_min :: "real option"
  x_max :: "real option"
  y_min :: "real option"
  y_max :: "real option"
  z_min :: "real option"
  z_max :: "real option"
  bc_xmin :: "bc_fun option"
  bc_xmax :: "bc_fun option"
  bc_ymin :: "bc_fun option"
  bc_ymax :: "bc_fun option"
  bc_zmin :: "bc_fun option"
  bc_zmax :: "bc_fun option"

subsection \<open>Errors and vector reads\<close>

definition bind_err :: "error + 'a \<Rightarrow> ('a \<Rightarrow> error + 'b) \<Rightarrow> error + 'b" where
  "bind_err m f = (case m of Inl e \<Rightarrow> Inl e | Inr v \<Rightarrow> f v)"

definition vget :: "'a list \<Rightarrow> nat \<Rightarrow> error + 'a" where
  "vget v i = (if i < length v then Inr (v ! i) else Inl OutOfRange)"

definition vget2 :: "'a list list \<Rightarrow> nat \<Rightarrow> nat \<Rightarrow> error + 'a" where
  "vget2 t i j = bind_err (vget t i) (\<lambda>row. vget row j)"

text \<open>\<^verbatim>\<open>std::max\<close> and \<^verbatim>\<open>std::min\<close> as the standard library defines them.\<close>

definition std_max :: "real \<Rightarrow> real \<Rightarrow> real" where
  "std_max a b = (if a < b then b else a)"

definition std_min :: "real \<Rightarrow> real \<Rightarrow> real" where
  "std_min a b = (if b < a then b else a)"

subsection \<open>Lines 25 to 74: the limits of the local domain\<close>

text \<open>\<^verbatim>\<open>params.cell_length[i]*(params.n_space_global[i])\<close>, lines 26, 28 and 30.\<close>

definition global_max :: "Params \<Rightarrow> nat \<Rightarrow> error + real" where
  "global_max params i =
     bind_err (vget (cell_length params) i) (\<lambda>c.
     bind_err (vget (n_space_global params) i) (\<lambda>n. Inr (c * real n)))"

definition limits_x :: "Params \<Rightarrow> Patch \<Rightarrow> real \<Rightarrow> PartBoundCond \<Rightarrow> error + PartBoundCond" where
  "limits_x params patch x_max_global this =
     bind_err (vget2 (EM_BCs params) 0 0) (\<lambda>em.
       if em = ''periodic'' \<or> hasWindow params
       then Inr (this\<lparr>x_min := Some (getDomainLocalMin patch 0),
                      x_max := Some (getDomainLocalMax patch 0)\<rparr>)
       else Inr (this\<lparr>x_min := Some (std_max 0 (getDomainLocalMin patch 0)),
                      x_max := Some (std_min x_max_global (getDomainLocalMax patch 0))\<rparr>))"

definition limits_y :: "Params \<Rightarrow> Patch \<Rightarrow> real \<Rightarrow> PartBoundCond \<Rightarrow> error + PartBoundCond" where
  "limits_y params patch y_max_global this =
     bind_err (vget2 (EM_BCs params) 1 0) (\<lambda>em.
       if em = ''periodic''
       then Inr (this\<lparr>y_min := Some (getDomainLocalMin patch 1),
                      y_max := Some (getDomainLocalMax patch 1)\<rparr>)
       else Inr (this\<lparr>y_min := Some (std_max 0 (getDomainLocalMin patch 1)),
                      y_max := Some (std_min y_max_global (getDomainLocalMax patch 1))\<rparr>))"

definition limits_z :: "Params \<Rightarrow> Patch \<Rightarrow> real \<Rightarrow> PartBoundCond \<Rightarrow> error + PartBoundCond" where
  "limits_z params patch z_max_global this =
     bind_err (vget2 (EM_BCs params) 2 0) (\<lambda>em.
       if em = ''periodic''
       then Inr (this\<lparr>z_min := Some (getDomainLocalMin patch 2),
                      z_max := Some (getDomainLocalMax patch 2)\<rparr>)
       else Inr (this\<lparr>z_min := Some (std_max 0 (getDomainLocalMin patch 2)),
                      z_max := Some (std_min z_max_global (getDomainLocalMax patch 2))\<rparr>))"

text \<open>Lines 53 to 74: the block of the y limits, the block of the z limits inside it.\<close>

definition limits_yz ::
  "Params \<Rightarrow> Patch \<Rightarrow> real \<Rightarrow> real \<Rightarrow> PartBoundCond \<Rightarrow> error + PartBoundCond" where
  "limits_yz params patch y_max_global z_max_global this =
     (if 1 < PartBoundCond.nDim_particle this
      then bind_err (limits_y params patch y_max_global this) (\<lambda>this.
             if 2 < PartBoundCond.nDim_particle this \<and> \<not> isRZ this
             then limits_z params patch z_max_global this
             else Inr this)
      else Inr this)"

definition define_limits ::
  "Params \<Rightarrow> Patch \<Rightarrow> real \<Rightarrow> real \<Rightarrow> real \<Rightarrow> PartBoundCond \<Rightarrow> error + PartBoundCond" where
  "define_limits params patch x_max_global y_max_global z_max_global this =
     bind_err (limits_x params patch x_max_global this) (\<lambda>this.
       limits_yz params patch y_max_global z_max_global this)"

subsection \<open>Lines 80 to 88: electromagnetic against particle boundary conditions\<close>

text \<open>
  One operand \<^verbatim>\<open>(params.EM_BCs[iDim][s]=="periodic")&&(species->boundary_conditions[iDim][s]!="periodic")\<close>
  of the test of line 82: the species' table is read only when the left comparison
  holds.
\<close>

definition side_mismatch :: "Params \<Rightarrow> Species \<Rightarrow> nat \<Rightarrow> nat \<Rightarrow> error + bool" where
  "side_mismatch params species iDim s =
     bind_err (vget2 (EM_BCs params) iDim s) (\<lambda>em.
       if em = ''periodic''
       then bind_err (vget2 (boundary_conditions species) iDim s) (\<lambda>bc. Inr (bc \<noteq> ''periodic''))
       else Inr False)"

text \<open>The whole test of lines 82 and 83: side 1 is looked at only when side 0 does not settle it.\<close>

definition axis_mismatch :: "Params \<Rightarrow> Species \<Rightarrow> nat \<Rightarrow> error + bool" where
  "axis_mismatch params species iDim =
     bind_err (side_mismatch params species iDim 0) (\<lambda>m0.
       if m0 then Inr True else side_mismatch params species iDim 1)"

text \<open>The loop of line 81, from \<open>iDim\<close> on; \<open>n\<close> is \<^verbatim>\<open>(unsigned int)nDim_field\<close>.\<close>

function check_BCs_from :: "Params \<Rightarrow> Species \<Rightarrow> nat \<Rightarrow> nat \<Rightarrow> error + unit" where
  "check_BCs_from params species n iDim =
     (if iDim < n
      then (case axis_mismatch params species iDim of
              Inl e \<Rightarrow> Inl e
            | Inr bad \<Rightarrow>
                if bad then Inl (PeriodicRequired (name species) iDim)
                else check_BCs_from params species n (iDim + 1))
      else Inr ())"
  by pat_completeness auto
termination
  by (relation "measure (\<lambda>(params, species, n, iDim). n - iDim)") auto

definition check_BCs :: "Params \<Rightarrow> Species \<Rightarrow> PartBoundCond \<Rightarrow> error + unit" where
  "check_BCs params species this =
     (if \<not> tracked (particles species)
      then check_BCs_from params species (PartBoundCond.nDim_field this) 0
      else Inr ())"

subsection \<open>Lines 94 to 257: the kind of boundary condition of each face\<close>

text \<open>Lines 94 to 99: the removal function, by the mass of the species.\<close>

definition select_remove :: "Species \<Rightarrow> bc_fun" where
  "select_remove species = (if mass species = 0 then remove_photon else remove_particle)"

text \<open>Lines 102 to 119.\<close>

definition set_bc_xmin :: "Species \<Rightarrow> Patch \<Rightarrow> bc_fun \<Rightarrow> PartBoundCond \<Rightarrow> error + PartBoundCond" where
  "set_bc_xmin species patch remove this =
     bind_err (vget2 (boundary_conditions species) 0 0) (\<lambda>bc.
       if bc = ''reflective''
       then Inr (if isXmin patch then this\<lparr>bc_xmin := Some reflect_particle\<rparr> else this)
       else if bc = ''remove''
       then Inr (if isXmin patch then this\<lparr>bc_xmin := Some remove\<rparr> else this)
       else if bc = ''stop''
       then Inr (if isXmin patch then this\<lparr>bc_xmin := Some stop_particle\<rparr> else this)
       else if bc = ''thermalize''
       then Inr (if isXmin patch then this\<lparr>bc_xmin := Some thermalize_particle\<rparr> else this)
       else if bc = ''periodic''
       then Inr this
       else Inl (UnknownBC Xmin bc))"

text \<open>Lines 122 to 139.\<close>

definition set_bc_xmax :: "Species \<Rightarrow> Patch \<Rightarrow> bc_fun \<Rightarrow> PartBoundCond \<Rightarrow> error + PartBoundCond" where
  "set_bc_xmax species patch remove this =
     bind_err (vget2 (boundary_conditions species) 0 1) (\<lambda>bc.
       if bc = ''reflective''
       then Inr (if isXmax patch then this\<lparr>bc_xmax := Some reflect_particle\<rparr> else this)
       else if bc = ''remove''
       then Inr (if isXmax patch then this\<lparr>bc_xmax := Some remove\<rparr> else this)
       else if bc = ''stop''
       then Inr (if isXmax patch then this\<lparr>bc_xmax := Some stop_particle\<rparr> else this)
       else if bc = ''thermalize''
       then Inr (if isXmax patch then this\<lparr>bc_xmax := Some thermalize_particle\<rparr> else this)
       else if bc = ''periodic''
       then Inr this
       else Inl (UnknownBC Xmax bc))"

text \<open>Lines 144 to 160.\<close>

definition set_bc_ymin :: "Species \<Rightarrow> Patch \<Rightarrow> bc_fun \<Rightarrow> PartBoundCond \<Rightarrow> error + PartBoundCond" where
  "set_bc_ymin species patch remove this =
     bind_err (vget2 (boundary_conditions species) 1 0) (\<lambda>bc.
       if bc = ''reflective''
       then Inr (if isYmin patch then this\<lparr>bc_ymin := Some reflect_particle\<rparr> else this)
       else if bc = ''remove''
       then Inr (if isYmin patch then this\<lparr>bc_ymin := Some remove\<rparr> else this)
       else if bc = ''stop''
       then Inr (if isYmin patch then this\<lparr>bc_ymin := Some stop_particle\<rparr> else this)
       else if bc = ''thermalize''
       then Inr (if isYmin patch then this\<lparr>bc_ymin := Some thermalize_particle\<rparr> else this)
       else if bc = ''periodic''
       then Inr this
       else Inl (UnknownBC Ymin bc))"

text \<open>Lines 163 to 179.\<close>

definition set_bc_ymax :: "Species \<Rightarrow> Patch \<Rightarrow> bc_fun \<Rightarrow> PartBoundCond \<Rightarrow> error + PartBoundCond" where
  "set_bc_ymax species patch remove this =
     bind_err (vget2 (boundary_conditions species) 1 1) (\<lambda>bc.
       if bc = ''reflective''
       then Inr (if isYmax patch then this\<lparr>bc_ymax := Some reflect_particle\<rparr> else this)
       else if bc = ''remove''
       then Inr (if isYmax patch then this\<lparr>bc_ymax := Some remove\<rparr> else this)
       else if bc = ''stop''
       then Inr (if isYmax patch then this\<lparr>bc_ymax := Some stop_particle\<rparr> else this)
       else if bc = ''thermalize''
       then Inr (if isYmax patch then this\<lparr>bc_ymax := Some thermalize_particle\<rparr> else this)
       else if bc = ''periodic''
       then Inr this
       else Inl (UnknownBC Ymax bc))"

text \<open>Lines 183 to 196: the chain of the z faces has four values.\<close>

definition set_bc_zmin :: "Species \<Rightarrow> Patch \<Rightarrow> bc_fun \<Rightarrow> PartBoundCond \<Rightarrow> error + PartBoundCond" where
  "set_bc_zmin species patch remove this =
     bind_err (vget2 (boundary_conditions species) 2 0) (\<lambda>bc.
       if bc = ''reflective''
       then Inr (if isZmin patch then this\<lparr>bc_zmin := Some reflect_particle\<rparr> else this)
       else if bc = ''remove''
       then Inr (if isZmin patch then this\<lparr>bc_zmin := Some remove\<rparr> else this)
       else if bc = ''stop''
       then Inr (if isZmin patch then this\<lparr>bc_zmin := Some stop_particle\<rparr> else this)
       else if bc = ''periodic''
       then Inr this
       else Inl (UnknownBC Zmin bc))"

text \<open>Lines 198 to 211.\<close>

definition set_bc_zmax :: "Species \<Rightarrow> Patch \<Rightarrow> bc_fun \<Rightarrow> PartBoundCond \<Rightarrow> error + PartBoundCond" where
  "set_bc_zmax species patch remove this =
     bind_err (vget2 (boundary_conditions species) 2 1) (\<lambda>bc.
       if bc = ''reflective''
       then Inr (if isZmax patch then this\<lparr>bc_zmax := Some reflect_particle\<rparr> else this)
       else if bc = ''remove''
       then Inr (if isZmax patch then this\<lparr>bc_zmax := Some remove\<rparr> else this)
       else if bc = ''stop''
       then Inr (if isZmax patch then this\<lparr>bc_zmax := Some stop_particle\<rparr> else this)
       else if bc = ''periodic''
       then Inr this
       else Inl (UnknownBC Zmax bc))"

text \<open>
  Lines 216 to 257, the branch of the axisymmetric geometry. All of it is commented out
  in the source but the test of the outer radial face, which stores the address of
  \<^verbatim>\<open>remove_particle\<close> itself (line 244), not the pointer chosen at lines 94 to 99.
\<close>

definition set_bc_rz :: "Species \<Rightarrow> Patch \<Rightarrow> PartBoundCond \<Rightarrow> error + PartBoundCond" where
  "set_bc_rz species patch this =
     bind_err (vget2 (boundary_conditions species) 1 1) (\<lambda>bc.
       if bc = ''remove''
       then Inr (if isYmax patch then this\<lparr>bc_ymax := Some remove_particle\<rparr> else this)
       else Inl OnlyRemoveRz)"

text \<open>Lines 182 to 213: the block of the z faces.\<close>

definition define_bcs_z :: "Species \<Rightarrow> Patch \<Rightarrow> bc_fun \<Rightarrow> PartBoundCond \<Rightarrow> error + PartBoundCond" where
  "define_bcs_z species patch remove this =
     (if 2 < PartBoundCond.nDim_particle this
      then bind_err (set_bc_zmin species patch remove this) (\<lambda>this.
           set_bc_zmax species patch remove this)
      else Inr this)"

text \<open>Lines 142 to 215: the block of the y faces, the block of the z faces inside it.\<close>

definition define_bcs_yz :: "Species \<Rightarrow> Patch \<Rightarrow> bc_fun \<Rightarrow> PartBoundCond \<Rightarrow> error + PartBoundCond" where
  "define_bcs_yz species patch remove this =
     bind_err (set_bc_ymin species patch remove this) (\<lambda>this.
     bind_err (set_bc_ymax species patch remove this) (\<lambda>this.
       define_bcs_z species patch remove this))"

text \<open>Lines 142 to 257: Cartesian with more than one dimension, axisymmetric, or neither.\<close>

definition define_bcs_transverse :: "Species \<Rightarrow> Patch \<Rightarrow> bc_fun \<Rightarrow> PartBoundCond \<Rightarrow> error + PartBoundCond" where
  "define_bcs_transverse species patch remove this =
     (if 1 < PartBoundCond.nDim_particle this \<and> \<not> isRZ this
      then define_bcs_yz species patch remove this
      else if isRZ this
      then set_bc_rz species patch this
      else Inr this)"

text \<open>Lines 101 to 257.\<close>

definition define_bcs :: "Species \<Rightarrow> Patch \<Rightarrow> bc_fun \<Rightarrow> PartBoundCond \<Rightarrow> error + PartBoundCond" where
  "define_bcs species patch remove this =
     bind_err (set_bc_xmin species patch remove this) (\<lambda>this.
     bind_err (set_bc_xmax species patch remove this) (\<lambda>this.
       define_bcs_transverse species patch remove this))"

subsection \<open>The constructor\<close>

text \<open>Lines 18 to 38: the members as they stand before the limits are computed.\<close>

definition init_members :: "Params \<Rightarrow> PartBoundCond" where
  "init_members params =
     \<lparr>isRZ = (geometry params = ''3drz''),
      nDim_particle = Params.nDim_particle params,
      nDim_field = Params.nDim_field params,
      x_min = None, x_max = None, y_min = None, y_max = None, z_min = None, z_max = None,
      bc_xmin = None, bc_xmax = None, bc_ymin = None, bc_ymax = None,
      bc_zmin = None, bc_zmax = None\<rparr>"

text \<open>
  The constructor, \<^verbatim>\<open>PartBoundCond::PartBoundCond\<close>: the global extents (lines 25 to
  30), the limits (lines 42 to 74), the check (lines 80 to 88), the choice of the removal
  function (lines 94 to 99) and the dispatch (lines 101 to 257). The first step that
  fails ends it.
\<close>

definition new_PartBoundCond :: "Params \<Rightarrow> Species \<Rightarrow> Patch \<Rightarrow> error + PartBoundCond" where
  "new_PartBoundCond params species patch =
     bind_err (global_max params 0) (\<lambda>x_max_global.
     bind_err (global_max params 1) (\<lambda>y_max_global.
     bind_err (global_max params 2) (\<lambda>z_max_global.
     bind_err (define_limits params patch x_max_global y_max_global z_max_global
                 (init_members params)) (\<lambda>this.
     bind_err (check_BCs params species this) (\<lambda>_.
       define_bcs species patch (select_remove species) this)))))"

section \<open>The time loop of main\<close>

text \<open>
  The second source file is the main program. Lines 268 to 445 are embedded: the
  assignment of the patches of the Cartesian domain (lines 268 to 333) and the time
  loop (lines 340 to 445). The operations that main calls (of \<^verbatim>\<open>VectorPatch\<close>,
  \<^verbatim>\<open>Domain\<close>, \<^verbatim>\<open>SyncCartesianPatch\<close>, \<^verbatim>\<open>SimWindow\<close>, \<^verbatim>\<open>Checkpoint\<close>,
  \<^verbatim>\<open>Timers\<close>) are not among the sources, so the embedding records which calls main
  issues and in which order: an \<open>event\<close> per call, named as the source names it, and a
  trace is the list of the calls in program order. A call returns before the next
  statement of main runs. A statement under \<^verbatim>\<open>omp single\<close> or \<^verbatim>\<open>omp master\<close> appears
  once. \<open>MPI_Barrier\<close> is the barrier over \<^verbatim>\<open>MPI_COMM_WORLD\<close>, \<open>omp_barrier\<close> the
  barrier of the threads of one process.
\<close>

datatype event =
    identify_additional_patches
  | set_additional_patches_ranks nat int
  | identify_missing_patches
  | set_missing_patches_ranks nat int
  | MPI_Barrier
  | print_timestep_headers
  | applyCollisions
  | dynamics
  | sumDensities
  | applyAntennas
  | patchedToCartesian
  | solveMaxwell
  | cartesianToPatches
  | finalize_and_sort_parts
  | finalize_sync_and_bc_fields
  | runAllDiags
  | movWindow_restart
  | operate
  | movWindow_update
  | checkpoint_dump
  | omp_barrier
  | loadBal_restart
  | load_balance
  | loadBal_update
  | print_timestep
  | timers_consolidate

text \<open>
  What the loop reads of \<^verbatim>\<open>params\<close>, \<^verbatim>\<open>smpi\<close> and \<^verbatim>\<open>checkpoint\<close>. The methods
  \<^verbatim>\<open>theTimeIsNow\<close>, \<^verbatim>\<open>printNow\<close> are functions of the step. \<^verbatim>\<open>checkpoint.dump\<close> is the
  only call of the loop that receives the checkpoint object: \<open>dump_exit_asap env itime b\<close>
  is the value of \<^verbatim>\<open>checkpoint.exit_asap\<close> after the call at step \<open>itime\<close> when it was
  \<open>b\<close> before. \<^verbatim>\<open>unsigned int\<close> is a 32-bit word.
\<close>

record Main_Env =
  timestep :: real
  n_time :: "32 word"
  time_fields_frozen :: real
  has_load_balancing :: bool
  theTimeIsNow :: "32 word \<Rightarrow> bool"
  printNow :: "32 word \<Rightarrow> bool"
  getRank :: int
  isMaster :: bool
  this_run_start_step :: "32 word"
  dump_exit_asap :: "32 word \<Rightarrow> bool \<Rightarrow> bool"

record Loop_State =
  itime :: "32 word"
  time_prim :: real
  time_dual :: real
  exit_asap :: bool

subsection \<open>Lines 268 to 338: before the loop\<close>

text \<open>Lines 284 to 299: the ranks written over the result of \<^verbatim>\<open>identify_additional_patches\<close>.\<close>

definition additional_overrides :: "int \<Rightarrow> event list" where
  "additional_overrides rank =
     (if rank = 0
      then map (\<lambda>idx. set_additional_patches_ranks idx 3) [0..<4]
         @ map (\<lambda>idx. set_additional_patches_ranks idx 2) [4..<8]
         @ map (\<lambda>idx. set_additional_patches_ranks idx 1) [8..<12]
      else if rank = 1
      then map (\<lambda>idx. set_additional_patches_ranks idx 2) [0..<8]
      else if rank = 3
      then map (\<lambda>idx. set_additional_patches_ranks idx 2) [0..<8]
      else [])"

text \<open>Lines 317 to 332: the ranks written over the result of \<^verbatim>\<open>identify_missing_patches\<close>.\<close>

definition missing_overrides :: "int \<Rightarrow> event list" where
  "missing_overrides rank =
     (if rank = 1
      then map (\<lambda>idx. set_missing_patches_ranks idx 0) [0..<4]
      else if rank = 2
      then map (\<lambda>idx. set_missing_patches_ranks idx 0) [0..<4]
         @ map (\<lambda>idx. set_missing_patches_ranks idx 1) [4..<12]
         @ map (\<lambda>idx. set_missing_patches_ranks idx 3) [12..<20]
      else if rank = 3
      then map (\<lambda>idx. set_missing_patches_ranks idx 0) [0..<4]
      else [])"

definition before_loop :: "Main_Env \<Rightarrow> event list" where
  "before_loop env =
     [identify_additional_patches] @ additional_overrides (getRank env)
     @ [identify_missing_patches] @ missing_overrides (getRank env)
     @ [MPI_Barrier]
     @ (if isMaster env then [print_timestep_headers] else [])"

subsection \<open>Lines 344 to 443: one iteration\<close>

text \<open>Lines 348 to 352.\<close>

definition advance_time :: "Main_Env \<Rightarrow> Loop_State \<Rightarrow> Loop_State" where
  "advance_time env s =
     s\<lparr>time_prim := time_prim s + timestep env, time_dual := time_dual s + timestep env\<rparr>"

text \<open>Lines 385 to 396.\<close>

definition maxwell_phase :: "Main_Env \<Rightarrow> Loop_State \<Rightarrow> event list" where
  "maxwell_phase env s =
     (if time_dual s > time_fields_frozen env
      then [MPI_Barrier, patchedToCartesian, MPI_Barrier, solveMaxwell, cartesianToPatches]
      else [])"

text \<open>Lines 421 to 428.\<close>

definition load_balance_phase :: "Main_Env \<Rightarrow> Loop_State \<Rightarrow> event list" where
  "load_balance_phase env s =
     (if has_load_balancing env
      then (if theTimeIsNow env (itime s)
            then [loadBal_restart, load_balance, loadBal_update]
            else [])
      else [])"

text \<open>Lines 432 to 439.\<close>

definition print_phase :: "Main_Env \<Rightarrow> Loop_State \<Rightarrow> event list" where
  "print_phase env s =
     (if isMaster env \<and> printNow env (itime s) then [print_timestep] else [])
     @ (if printNow env (itime s) then [timers_consolidate, omp_barrier] else [])"

text \<open>Lines 353 to 439: the calls of one iteration, the times already advanced.\<close>

definition step_trace :: "Main_Env \<Rightarrow> Loop_State \<Rightarrow> event list" where
  "step_trace env s =
     [applyCollisions, dynamics, sumDensities, applyAntennas, MPI_Barrier]
     @ maxwell_phase env s
     @ [finalize_and_sort_parts, finalize_sync_and_bc_fields, runAllDiags,
        movWindow_restart, operate, movWindow_update, checkpoint_dump, omp_barrier]
     @ load_balance_phase env s
     @ print_phase env s"

text \<open>The state at the head of the next iteration: line 416 and line 441.\<close>

definition end_of_step :: "Main_Env \<Rightarrow> Loop_State \<Rightarrow> Loop_State" where
  "end_of_step env s =
     s\<lparr>exit_asap := dump_exit_asap env (itime s) (exit_asap s), itime := itime s + 1\<rparr>"

subsection \<open>Lines 343 to 443: the loop\<close>

text \<open>
  The loop may run forever (\<^verbatim>\<open>itime++\<close> wraps when \<^verbatim>\<open>n_time\<close> is the largest
  \<^verbatim>\<open>unsigned int\<close>), so it is given fuel: \<open>time_loop fuel env s\<close> lists the first
  \<open>fuel\<close> iterations at most, each as the state in which the iteration ran (its times
  advanced) and the trace of its calls. Every iteration of a run is in the list for
  some fuel.
\<close>

fun time_loop :: "nat \<Rightarrow> Main_Env \<Rightarrow> Loop_State \<Rightarrow> (Loop_State \<times> event list) list" where
  "time_loop 0 env s = []"
| "time_loop (Suc fuel) env s =
     (if itime s \<le> n_time env \<and> \<not> exit_asap s
      then (let s1 = advance_time env s
            in (s1, step_trace env s1) # time_loop fuel env (end_of_step env s1))
      else [])"

text \<open>Line 343: the state in which the loop starts, the two times as main has set them.\<close>

definition loop_start :: "Main_Env \<Rightarrow> real \<Rightarrow> real \<Rightarrow> bool \<Rightarrow> Loop_State" where
  "loop_start env t_prim t_dual ex =
     \<lparr>itime = this_run_start_step env + 1, time_prim = t_prim, time_dual = t_dual,
      exit_asap = ex\<rparr>"

subsection \<open>Reading a trace\<close>

text \<open>What follows the first \<open>a\<close> of a trace, and what lies between it and the next \<open>b\<close>.\<close>

definition after :: "event \<Rightarrow> event list \<Rightarrow> event list" where
  "after a tr = tl (dropWhile (\<lambda>e. e \<noteq> a) tr)"

definition before :: "event \<Rightarrow> event list \<Rightarrow> event list" where
  "before a tr = takeWhile (\<lambda>e. e \<noteq> a) tr"

definition between :: "event \<Rightarrow> event \<Rightarrow> event list \<Rightarrow> event list" where
  "between a b tr = before b (after a tr)"

definition maxwell_executed :: "event list \<Rightarrow> bool" where
  "maxwell_executed tr =
     (patchedToCartesian \<in> set tr \<and> solveMaxwell \<in> set tr \<and> cartesianToPatches \<in> set tr)"

definition maxwell_skipped :: "event list \<Rightarrow> bool" where
  "maxwell_skipped tr =
     (patchedToCartesian \<notin> set tr \<and> solveMaxwell \<notin> set tr \<and> cartesianToPatches \<notin> set tr)"

text \<open>The operations of the chain of the ordering guarantee.\<close>

definition in_chain :: "event \<Rightarrow> bool" where
  "in_chain e =
     (e \<in> set [dynamics, sumDensities, patchedToCartesian, solveMaxwell, cartesianToPatches,
                finalize_sync_and_bc_fields, runAllDiags, operate, load_balance])"

subsection \<open>The assignment of the patches of the Cartesian domain\<close>

text \<open>
  Modelled from the spec: the class \<^verbatim>\<open>Domain\<close> is not among the sources. The
  specification (4.5) gives the Cartesian Mirror Domain its rectangular tile assignment
  as two lists of ranks, \<^verbatim>\<open>additional_patches_ranks\<close> (the patches the process holds
  and relinquishes) and \<^verbatim>\<open>missing_patches_ranks\<close> (the patches it acquires).
\<close>

record Tile_Assignment =
  additional_patches_ranks :: "int list"
  missing_patches_ranks :: "int list"

text \<open>
  Modelled from the spec: what the assignment depends on and the assignment itself. The
  specification (4.3, 4.7) keeps the number of patches of each process in
  \<^verbatim>\<open>patch_count\<close>; the assignment is \<open>None\<close> while it is invalidated (4.7, step 5).
\<close>

record Domain_State =
  patch_count :: "nat list"
  tile_assignment :: "Tile_Assignment option"

text \<open>
  Modelled from the spec: the two computations the specification names and whose code
  is not among the sources, taken as functions. \<open>balanced_patch_count ops step pc\<close> is
  the \<^verbatim>\<open>patch_count\<close> that steps 1 to 4 of the load balancer (4.7) reach at time step
  \<open>step\<close> from \<open>pc\<close>; \<open>derive_assignment ops pc\<close> is the assignment that the
  deterministic algorithm of the design notes (9) derives from \<open>pc\<close> and the configured
  \<^verbatim>\<open>global_factor\<close>.
\<close>

record Spec_Ops =
  balanced_patch_count :: "32 word \<Rightarrow> nat list \<Rightarrow> nat list"
  derive_assignment :: "nat list \<Rightarrow> Tile_Assignment"

text \<open>
  Modelled from the spec: steps 1 to 4 of the load balancer (4.7), which migrate the
  patches and update \<^verbatim>\<open>patch_count\<close>.
\<close>

definition repartition :: "Spec_Ops \<Rightarrow> 32 word \<Rightarrow> Domain_State \<Rightarrow> Domain_State" where
  "repartition ops step d = d\<lparr>patch_count := balanced_patch_count ops step (patch_count d)\<rparr>"

text \<open>
  Modelled from the spec: step 5 of the load balancer (4.7), "Invalidate and rebuild the
  Cartesian Mirror Domain rectangular partition", in its two halves.
\<close>

definition invalidate :: "Domain_State \<Rightarrow> Domain_State" where
  "invalidate d = d\<lparr>tile_assignment := None\<rparr>"

definition rebuild :: "Spec_Ops \<Rightarrow> Domain_State \<Rightarrow> Domain_State" where
  "rebuild ops d = d\<lparr>tile_assignment := Some (derive_assignment ops (patch_count d))\<rparr>"

text \<open>
  Modelled from the spec: \<^verbatim>\<open>VectorPatch::load_balance\<close>, whose body is not among the
  sources, as the five steps of the specification (4.7).
\<close>

definition spec_load_balance :: "Spec_Ops \<Rightarrow> 32 word \<Rightarrow> Domain_State \<Rightarrow> Domain_State" where
  "spec_load_balance ops step d = rebuild ops (invalidate (repartition ops step d))"

text \<open>
  Modelled from the spec: what a call of an iteration of the loop does to the
  assignment. None of the bodies is among the sources. The call of \<^verbatim>\<open>load_balance\<close>
  does what the specification gives it (4.7); of every other call of the loop the
  specification (4.5) says that the assignment "is stable unless a load-balance event
  triggers recomputation". The function is applied to the calls of the iterations only,
  not to those made before the loop.
\<close>

fun effect :: "Spec_Ops \<Rightarrow> 32 word \<Rightarrow> Domain_State \<Rightarrow> event \<Rightarrow> Domain_State" where
  "effect ops step d load_balance = spec_load_balance ops step d"
| "effect ops step d e = d"

text \<open>The calls of one iteration of the loop of main, in their order, from the state \<open>d\<close>.\<close>

definition run_iteration ::
  "Spec_Ops \<Rightarrow> Loop_State \<times> event list \<Rightarrow> Domain_State \<Rightarrow> Domain_State" where
  "run_iteration ops it d = foldl (effect ops (itime (fst it))) d (snd it)"

text \<open>
  The iterations of the loop one after the other: for each, the state before it and the
  state after it.
\<close>

fun domain_history ::
  "Spec_Ops \<Rightarrow> (Loop_State \<times> event list) list \<Rightarrow> Domain_State
     \<Rightarrow> (Domain_State \<times> Domain_State) list" where
  "domain_history ops [] d = []"
| "domain_history ops (it # its) d =
     (d, run_iteration ops it d) # domain_history ops its (run_iteration ops it d)"

subsection \<open>The rule of lines 82 and 83, side by side\<close>

text \<open>
  Side \<open>s\<close> of axis \<open>iDim\<close> breaks the rule when the electromagnetic condition there is
  periodic and the condition of the species on that same side is not.
\<close>

definition violates :: "Params \<Rightarrow> Species \<Rightarrow> nat \<Rightarrow> nat \<Rightarrow> bool" where
  "violates params species iDim s =
     (vget2 (EM_BCs params) iDim s = Inr ''periodic'' \<and>
      vget2 (boundary_conditions species) iDim s \<noteq> Inr ''periodic'')"

text \<open>A species with the condition of axis 1, side 0 (the inner radius) replaced by \<open>v\<close>.\<close>

definition with_inner_radius :: "string \<Rightarrow> Species \<Rightarrow> Species" where
  "with_inner_radius v species =
     species\<lparr>boundary_conditions :=
       (boundary_conditions species)[1 := (boundary_conditions species ! 1)[0 := v]]\<rparr>"


subsection \<open>Configurations used to run the constructor\<close>

text \<open>A patch that is the whole domain of ten cells per axis: every face is a global boundary.\<close>

definition patch_whole :: Patch where
  "patch_whole =
     \<lparr>getDomainLocalMin = (\<lambda>i. 0), getDomainLocalMax = (\<lambda>i. 10),
      isXmin = True, isXmax = True, isYmin = True, isYmax = True,
      isZmin = True, isZmax = True\<rparr>"

text \<open>One dimension, the electromagnetic condition periodic at Xmin only.\<close>

definition params_x_mixed :: Params where
  "params_x_mixed =
     \<lparr>geometry = ''1d3v'', nDim_particle = 1, nDim_field = 1,
      cell_length = [1, 0, 0], n_space_global = [10, 1, 1],
      EM_BCs = [[''periodic'', ''silver-muller'']], hasWindow = False\<rparr>"

definition species_x_mixed :: Species where
  "species_x_mixed =
     \<lparr>name = ''ion'', mass = 1836, particles = \<lparr>tracked = False\<rparr>,
      boundary_conditions = [[''periodic'', ''reflective'']]\<rparr>"

text \<open>One dimension, periodic fields, reflected particles.\<close>

definition params_x_periodic :: Params where
  "params_x_periodic =
     \<lparr>geometry = ''1d3v'', nDim_particle = 1, nDim_field = 1,
      cell_length = [1, 0, 0], n_space_global = [10, 1, 1],
      EM_BCs = [[''periodic'', ''periodic'']], hasWindow = False\<rparr>"

definition species_x_reflective :: Species where
  "species_x_reflective =
     \<lparr>name = ''ion'', mass = 1836, particles = \<lparr>tracked = False\<rparr>,
      boundary_conditions = [[''reflective'', ''reflective'']]\<rparr>"

text \<open>
  The axisymmetric geometry: two field axes, three particle axes. The species is a
  photon species; the inner radius is configured \<open>none\<close>.
\<close>

definition params_rz :: Params where
  "params_rz =
     \<lparr>geometry = ''3drz'', nDim_particle = 3, nDim_field = 2,
      cell_length = [1, 1, 0], n_space_global = [10, 10, 1],
      EM_BCs = [[''silver-muller'', ''silver-muller''], [''buneman'', ''buneman'']],
      hasWindow = False\<rparr>"

definition photon_rz_remove :: Species where
  "photon_rz_remove =
     \<lparr>name = ''photon'', mass = 0, particles = \<lparr>tracked = False\<rparr>,
      boundary_conditions = [[''remove'', ''remove''], [''none'', ''remove'']]\<rparr>"

definition photon_rz_reflective :: Species where
  "photon_rz_reflective =
     \<lparr>name = ''photon'', mass = 0, particles = \<lparr>tracked = False\<rparr>,
      boundary_conditions = [[''remove'', ''remove''], [''none'', ''reflective'']]\<rparr>"

text \<open>
  Two dimensions, fields periodic along y. The patch is at the global boundary at Xmin
  and at Ymin and has neighbours at Xmax and at Ymax.
\<close>

definition params_2d :: Params where
  "params_2d =
     \<lparr>geometry = ''2d3v'', nDim_particle = 2, nDim_field = 2,
      cell_length = [1, 1, 0], n_space_global = [10, 10, 1],
      EM_BCs = [[''silver-muller'', ''silver-muller''], [''periodic'', ''periodic'']],
      hasWindow = False\<rparr>"

definition species_2d :: Species where
  "species_2d =
     \<lparr>name = ''electron'', mass = 1, particles = \<lparr>tracked = False\<rparr>,
      boundary_conditions = [[''reflective'', ''stop''], [''periodic'', ''periodic'']]\<rparr>"

definition patch_corner :: Patch where
  "patch_corner =
     \<lparr>getDomainLocalMin = (\<lambda>i. 0), getDomainLocalMax = (\<lambda>i. 5),
      isXmin = True, isXmax = False, isYmin = True, isYmax = False,
      isZmin = False, isZmax = False\<rparr>"

text \<open>
  One dimension with a moving window, the fields not periodic. The patch reaches from
  5 to 15, past the global extent of ten cells.
\<close>

definition params_window :: Params where
  "params_window =
     \<lparr>geometry = ''1d3v'', nDim_particle = 1, nDim_field = 1,
      cell_length = [1, 0, 0], n_space_global = [10, 1, 1],
      EM_BCs = [[''silver-muller'', ''silver-muller'']], hasWindow = True\<rparr>"

definition patch_moved :: Patch where
  "patch_moved =
     \<lparr>getDomainLocalMin = (\<lambda>i. 5), getDomainLocalMax = (\<lambda>i. 15),
      isXmin = False, isXmax = True, isYmin = False, isYmax = False,
      isZmin = False, isZmax = False\<rparr>"

text \<open>Three dimensions, no periodic field, the species thermalized at the y and z faces.\<close>

definition params_3d :: Params where
  "params_3d =
     \<lparr>geometry = ''3d3v'', nDim_particle = 3, nDim_field = 3,
      cell_length = [1, 1, 1], n_space_global = [10, 10, 10],
      EM_BCs = [[''silver-muller'', ''silver-muller''], [''silver-muller'', ''silver-muller''],
                [''silver-muller'', ''silver-muller'']],
      hasWindow = False\<rparr>"

definition species_3d_thermalize :: Species where
  "species_3d_thermalize =
     \<lparr>name = ''electron'', mass = 1, particles = \<lparr>tracked = False\<rparr>,
      boundary_conditions = [[''remove'', ''remove''], [''thermalize'', ''thermalize''],
                             [''thermalize'', ''thermalize'']]\<rparr>"

subsection \<open>A run of the time loop\<close>

text \<open>
  Two steps of length 1, the fields frozen until 3/2, load balancing at step 1, on a
  process of rank 4 that is not the master. The dual time starts at half a step, so
  it is 3/2 in the first iteration and 5/2 in the second.
\<close>

definition env_run :: Main_Env where
  "env_run =
     \<lparr>timestep = 1, n_time = 2, time_fields_frozen = 3 / 2,
      has_load_balancing = True, theTimeIsNow = (\<lambda>i. i = 1), printNow = (\<lambda>i. False),
      getRank = 4, isMaster = False, this_run_start_step = 0,
      dump_exit_asap = (\<lambda>i b. b)\<rparr>"

definition first_iteration :: "Loop_State \<times> event list" where
  "first_iteration =
     (\<lparr>itime = 1, time_prim = 1, time_dual = 3 / 2, exit_asap = False\<rparr>,
      [applyCollisions, dynamics, sumDensities, applyAntennas, MPI_Barrier,
       finalize_and_sort_parts, finalize_sync_and_bc_fields, runAllDiags,
       movWindow_restart, operate, movWindow_update, checkpoint_dump, omp_barrier,
       loadBal_restart, load_balance, loadBal_update])"

definition second_iteration :: "Loop_State \<times> event list" where
  "second_iteration =
     (\<lparr>itime = 2, time_prim = 2, time_dual = 5 / 2, exit_asap = False\<rparr>,
      [applyCollisions, dynamics, sumDensities, applyAntennas, MPI_Barrier,
       MPI_Barrier, patchedToCartesian, MPI_Barrier, solveMaxwell, cartesianToPatches,
       finalize_and_sort_parts, finalize_sync_and_bc_fields, runAllDiags,
       movWindow_restart, operate, movWindow_update, checkpoint_dump, omp_barrier])"

text \<open>
  Two processes that hold three patches and one patch. Balancing gives each of them two
  patches; the assignment derived from a distribution lists it as ranks.
\<close>

definition ops_run :: Spec_Ops where
  "ops_run =
     \<lparr>balanced_patch_count = (\<lambda>step pc. [2, 2]),
      derive_assignment =
        (\<lambda>pc. \<lparr>additional_patches_ranks = map int pc, missing_patches_ranks = []\<rparr>)\<rparr>"

definition domain_start :: Domain_State where
  "domain_start =
     \<lparr>patch_count = [3, 1],
      tile_assignment =
        Some \<lparr>additional_patches_ranks = [3, 1], missing_patches_ranks = []\<rparr>\<rparr>"

definition domain_balanced :: Domain_State where
  "domain_balanced =
     \<lparr>patch_count = [2, 2],
      tile_assignment =
        Some \<lparr>additional_patches_ranks = [2, 2], missing_patches_ranks = []\<rparr>\<rparr>"


section \<open>Lemmas about the steps of the constructor\<close>

subsection \<open>Sequencing of fallible steps\<close>

lemma bind_err_Inr: "bind_err m f = Inr y \<longleftrightarrow> (\<exists>v. m = Inr v \<and> f v = Inr y)"
  by (cases m) (simp_all add: bind_err_def)

lemma bind_err_Inl: "bind_err m f = Inl e \<longleftrightarrow> m = Inl e \<or> (\<exists>v. m = Inr v \<and> f v = Inl e)"
  by (cases m) (simp_all add: bind_err_def)

lemma bind_err_simps [simp]: "bind_err (Inl e) f = Inl e" "bind_err (Inr v) f = f v"
  by (simp_all add: bind_err_def)

lemma bind_err_InrE:
  assumes "bind_err m f = Inr y"
  obtains v where "m = Inr v" "f v = Inr y"
  using assms by (cases m) simp_all

lemma bind_err_InlE:
  assumes "bind_err m f = Inl e"
  obtains "m = Inl e" | v where "m = Inr v" "f v = Inl e"
  using assms by (cases m) simp_all

lemma bind_err_same:
  assumes "\<And>v. m = Inr v \<Longrightarrow> f v = g v"
  shows "bind_err m f = bind_err m g"
  using assms by (cases m) simp_all

subsection \<open>The steps that store a pointer\<close>

text \<open>
  Each step leaves every member but its own pointer as it was, stores a pointer only on
  a face of the global boundary whose condition is not periodic, and fails only by an
  unknown condition of its own face or by a read out of range.
\<close>

lemma set_bc_xmin_Inr:
  assumes "set_bc_xmin species patch remove this = Inr this'"
  shows "this' = this\<lparr>bc_xmin := bc_xmin this'\<rparr>"
    and "bc_xmin this' \<noteq> bc_xmin this \<Longrightarrow>
           isXmin patch \<and> vget2 (boundary_conditions species) 0 0 \<noteq> Inr ''periodic''"
  using assms by (auto simp: set_bc_xmin_def bind_err_Inr split: if_splits)

lemma set_bc_xmin_frame:
  assumes "set_bc_xmin species patch remove this = Inr this'"
    and "\<And>f t. g (t\<lparr>bc_xmin := f\<rparr>) = g t"
  shows "g this' = g this"
  using set_bc_xmin_Inr(1)[OF assms(1)] assms(2) by metis

lemma set_bc_xmin_Inl:
  assumes "set_bc_xmin species patch remove this = Inl e"
  shows "e = OutOfRange \<or> (\<exists>v. e = UnknownBC Xmin v)"
proof -
  have "vget2 (boundary_conditions species) 0 0 = Inl e \<Longrightarrow> e = OutOfRange"
    by (auto simp: vget2_def vget_def bind_err_Inl split: if_splits)
  with assms show ?thesis
    by (auto simp: set_bc_xmin_def bind_err_Inl split: if_splits)
qed

lemma set_bc_xmax_Inr:
  assumes "set_bc_xmax species patch remove this = Inr this'"
  shows "this' = this\<lparr>bc_xmax := bc_xmax this'\<rparr>"
    and "bc_xmax this' \<noteq> bc_xmax this \<Longrightarrow>
           isXmax patch \<and> vget2 (boundary_conditions species) 0 1 \<noteq> Inr ''periodic''"
  using assms by (auto simp: set_bc_xmax_def bind_err_Inr split: if_splits)

lemma set_bc_xmax_frame:
  assumes "set_bc_xmax species patch remove this = Inr this'"
    and "\<And>f t. g (t\<lparr>bc_xmax := f\<rparr>) = g t"
  shows "g this' = g this"
  using set_bc_xmax_Inr(1)[OF assms(1)] assms(2) by metis

lemma set_bc_xmax_Inl:
  assumes "set_bc_xmax species patch remove this = Inl e"
  shows "e = OutOfRange \<or> (\<exists>v. e = UnknownBC Xmax v)"
proof -
  have "vget2 (boundary_conditions species) 0 1 = Inl e \<Longrightarrow> e = OutOfRange"
    by (auto simp: vget2_def vget_def bind_err_Inl split: if_splits)
  with assms show ?thesis
    by (auto simp: set_bc_xmax_def bind_err_Inl split: if_splits)
qed

lemma set_bc_ymin_Inr:
  assumes "set_bc_ymin species patch remove this = Inr this'"
  shows "this' = this\<lparr>bc_ymin := bc_ymin this'\<rparr>"
    and "bc_ymin this' \<noteq> bc_ymin this \<Longrightarrow>
           isYmin patch \<and> vget2 (boundary_conditions species) 1 0 \<noteq> Inr ''periodic''"
  using assms by (auto simp: set_bc_ymin_def bind_err_Inr split: if_splits)

lemma set_bc_ymin_frame:
  assumes "set_bc_ymin species patch remove this = Inr this'"
    and "\<And>f t. g (t\<lparr>bc_ymin := f\<rparr>) = g t"
  shows "g this' = g this"
  using set_bc_ymin_Inr(1)[OF assms(1)] assms(2) by metis

lemma set_bc_ymin_Inl:
  assumes "set_bc_ymin species patch remove this = Inl e"
  shows "e = OutOfRange \<or> (\<exists>v. e = UnknownBC Ymin v)"
proof -
  have "vget2 (boundary_conditions species) 1 0 = Inl e \<Longrightarrow> e = OutOfRange"
    by (auto simp: vget2_def vget_def bind_err_Inl split: if_splits)
  with assms show ?thesis
    by (auto simp: set_bc_ymin_def bind_err_Inl split: if_splits)
qed

lemma set_bc_ymax_Inr:
  assumes "set_bc_ymax species patch remove this = Inr this'"
  shows "this' = this\<lparr>bc_ymax := bc_ymax this'\<rparr>"
    and "bc_ymax this' \<noteq> bc_ymax this \<Longrightarrow>
           isYmax patch \<and> vget2 (boundary_conditions species) 1 1 \<noteq> Inr ''periodic''"
  using assms by (auto simp: set_bc_ymax_def bind_err_Inr split: if_splits)

lemma set_bc_ymax_frame:
  assumes "set_bc_ymax species patch remove this = Inr this'"
    and "\<And>f t. g (t\<lparr>bc_ymax := f\<rparr>) = g t"
  shows "g this' = g this"
  using set_bc_ymax_Inr(1)[OF assms(1)] assms(2) by metis

lemma set_bc_ymax_Inl:
  assumes "set_bc_ymax species patch remove this = Inl e"
  shows "e = OutOfRange \<or> (\<exists>v. e = UnknownBC Ymax v)"
proof -
  have "vget2 (boundary_conditions species) 1 1 = Inl e \<Longrightarrow> e = OutOfRange"
    by (auto simp: vget2_def vget_def bind_err_Inl split: if_splits)
  with assms show ?thesis
    by (auto simp: set_bc_ymax_def bind_err_Inl split: if_splits)
qed

lemma set_bc_zmin_Inr:
  assumes "set_bc_zmin species patch remove this = Inr this'"
  shows "this' = this\<lparr>bc_zmin := bc_zmin this'\<rparr>"
    and "bc_zmin this' \<noteq> bc_zmin this \<Longrightarrow>
           isZmin patch \<and> vget2 (boundary_conditions species) 2 0 \<noteq> Inr ''periodic''"
  using assms by (auto simp: set_bc_zmin_def bind_err_Inr split: if_splits)

lemma set_bc_zmin_frame:
  assumes "set_bc_zmin species patch remove this = Inr this'"
    and "\<And>f t. g (t\<lparr>bc_zmin := f\<rparr>) = g t"
  shows "g this' = g this"
  using set_bc_zmin_Inr(1)[OF assms(1)] assms(2) by metis

lemma set_bc_zmin_Inl:
  assumes "set_bc_zmin species patch remove this = Inl e"
  shows "e = OutOfRange \<or> (\<exists>v. e = UnknownBC Zmin v)"
proof -
  have "vget2 (boundary_conditions species) 2 0 = Inl e \<Longrightarrow> e = OutOfRange"
    by (auto simp: vget2_def vget_def bind_err_Inl split: if_splits)
  with assms show ?thesis
    by (auto simp: set_bc_zmin_def bind_err_Inl split: if_splits)
qed

lemma set_bc_zmax_Inr:
  assumes "set_bc_zmax species patch remove this = Inr this'"
  shows "this' = this\<lparr>bc_zmax := bc_zmax this'\<rparr>"
    and "bc_zmax this' \<noteq> bc_zmax this \<Longrightarrow>
           isZmax patch \<and> vget2 (boundary_conditions species) 2 1 \<noteq> Inr ''periodic''"
  using assms by (auto simp: set_bc_zmax_def bind_err_Inr split: if_splits)

lemma set_bc_zmax_frame:
  assumes "set_bc_zmax species patch remove this = Inr this'"
    and "\<And>f t. g (t\<lparr>bc_zmax := f\<rparr>) = g t"
  shows "g this' = g this"
  using set_bc_zmax_Inr(1)[OF assms(1)] assms(2) by metis

lemma set_bc_zmax_Inl:
  assumes "set_bc_zmax species patch remove this = Inl e"
  shows "e = OutOfRange \<or> (\<exists>v. e = UnknownBC Zmax v)"
proof -
  have "vget2 (boundary_conditions species) 2 1 = Inl e \<Longrightarrow> e = OutOfRange"
    by (auto simp: vget2_def vget_def bind_err_Inl split: if_splits)
  with assms show ?thesis
    by (auto simp: set_bc_zmax_def bind_err_Inl split: if_splits)
qed

lemma set_bc_rz_Inr:
  assumes "set_bc_rz species patch this = Inr this'"
  shows "this' = this\<lparr>bc_ymax := bc_ymax this'\<rparr>"
    and "vget2 (boundary_conditions species) 1 1 = Inr ''remove''"
    and "bc_ymax this' = (if isYmax patch then Some remove_particle else bc_ymax this)"
  using assms by (auto simp: set_bc_rz_def bind_err_Inr split: if_splits)

lemma set_bc_rz_frame:
  assumes "set_bc_rz species patch this = Inr this'"
    and "\<And>f t. g (t\<lparr>bc_ymax := f\<rparr>) = g t"
  shows "g this' = g this"
  using set_bc_rz_Inr(1)[OF assms(1)] assms(2) by metis

lemma set_bc_rz_Inl:
  assumes "set_bc_rz species patch this = Inl e"
  shows "e = OutOfRange \<or> e = OnlyRemoveRz"
proof -
  have "vget2 (boundary_conditions species) 1 1 = Inl e \<Longrightarrow> e = OutOfRange"
    by (auto simp: vget2_def vget_def bind_err_Inl split: if_splits)
  with assms show ?thesis
    by (auto simp: set_bc_rz_def bind_err_Inl split: if_splits)
qed

subsection \<open>The blocks of the dispatch\<close>

lemma define_bcs_z_frame:
  assumes "define_bcs_z species patch remove this = Inr this'"
    and z: "\<And>f t. g (t\<lparr>bc_zmin := f\<rparr>) = g t" "\<And>f t. g (t\<lparr>bc_zmax := f\<rparr>) = g t"
  shows "g this' = g this"
proof (cases "2 < PartBoundCond.nDim_particle this")
  case True
  with assms(1) obtain t where
    t: "set_bc_zmin species patch remove this = Inr t" and
    t': "set_bc_zmax species patch remove t = Inr this'"
    by (auto simp: define_bcs_z_def elim: bind_err_InrE)
  show ?thesis
    using set_bc_zmin_frame[OF t, of g] set_bc_zmax_frame[OF t', of g] z by simp
next
  case False
  with assms(1) show ?thesis
    by (simp add: define_bcs_z_def)
qed

lemma define_bcs_z_faces:
  assumes "define_bcs_z species patch remove this = Inr this'"
  shows "bc_zmin this' \<noteq> bc_zmin this \<Longrightarrow>
           isZmin patch \<and> vget2 (boundary_conditions species) 2 0 \<noteq> Inr ''periodic''"
    and "bc_zmax this' \<noteq> bc_zmax this \<Longrightarrow>
           isZmax patch \<and> vget2 (boundary_conditions species) 2 1 \<noteq> Inr ''periodic''"
proof -
  have "(bc_zmin this' \<noteq> bc_zmin this \<longrightarrow>
           isZmin patch \<and> vget2 (boundary_conditions species) 2 0 \<noteq> Inr ''periodic'') \<and>
        (bc_zmax this' \<noteq> bc_zmax this \<longrightarrow>
           isZmax patch \<and> vget2 (boundary_conditions species) 2 1 \<noteq> Inr ''periodic'')"
  proof (cases "2 < PartBoundCond.nDim_particle this")
    case True
    with assms(1) obtain t where
      t: "set_bc_zmin species patch remove this = Inr t" and
      t': "set_bc_zmax species patch remove t = Inr this'"
      by (auto simp: define_bcs_z_def elim: bind_err_InrE)
    have "bc_zmin this' = bc_zmin t"
      by (rule set_bc_zmax_frame[OF t']) simp
    moreover have "bc_zmax t = bc_zmax this"
      by (rule set_bc_zmin_frame[OF t]) simp
    ultimately show ?thesis
      using set_bc_zmin_Inr(2)[OF t] set_bc_zmax_Inr(2)[OF t'] by simp
  next
    case False
    with assms(1) show ?thesis
      by (simp add: define_bcs_z_def)
  qed
  then show "bc_zmin this' \<noteq> bc_zmin this \<Longrightarrow>
           isZmin patch \<and> vget2 (boundary_conditions species) 2 0 \<noteq> Inr ''periodic''"
    and "bc_zmax this' \<noteq> bc_zmax this \<Longrightarrow>
           isZmax patch \<and> vget2 (boundary_conditions species) 2 1 \<noteq> Inr ''periodic''"
    by blast+
qed

lemma define_bcs_z_Inl:
  assumes "define_bcs_z species patch remove this = Inl e"
  shows "e = OutOfRange \<or> (\<exists>v. e = UnknownBC Zmin v) \<or> (\<exists>v. e = UnknownBC Zmax v)"
proof (cases "2 < PartBoundCond.nDim_particle this")
  case True
  with assms have "bind_err (set_bc_zmin species patch remove this)
                     (\<lambda>this. set_bc_zmax species patch remove this) = Inl e"
    by (simp add: define_bcs_z_def)
  then show ?thesis
    by (rule bind_err_InlE) (use set_bc_zmin_Inl set_bc_zmax_Inl in blast)+
next
  case False
  with assms show ?thesis
    by (simp add: define_bcs_z_def)
qed

lemma define_bcs_yz_steps:
  assumes "define_bcs_yz species patch remove this = Inr this'"
  obtains t t' where "set_bc_ymin species patch remove this = Inr t"
    and "set_bc_ymax species patch remove t = Inr t'"
    and "define_bcs_z species patch remove t' = Inr this'"
  using assms unfolding define_bcs_yz_def by (elim bind_err_InrE) blast

lemma define_bcs_yz_frame:
  assumes "define_bcs_yz species patch remove this = Inr this'"
    and y: "\<And>f t. g (t\<lparr>bc_ymin := f\<rparr>) = g t" "\<And>f t. g (t\<lparr>bc_ymax := f\<rparr>) = g t"
    and z: "\<And>f t. g (t\<lparr>bc_zmin := f\<rparr>) = g t" "\<And>f t. g (t\<lparr>bc_zmax := f\<rparr>) = g t"
  shows "g this' = g this"
proof -
  from assms(1) obtain t t' where
    t: "set_bc_ymin species patch remove this = Inr t" and
    t': "set_bc_ymax species patch remove t = Inr t'" and
    r: "define_bcs_z species patch remove t' = Inr this'"
    by (rule define_bcs_yz_steps)
  show ?thesis
    using set_bc_ymin_frame[OF t, of g] set_bc_ymax_frame[OF t', of g]
      define_bcs_z_frame[OF r, of g] y z by simp
qed

lemma define_bcs_yz_faces:
  assumes "define_bcs_yz species patch remove this = Inr this'"
  shows "bc_ymin this' \<noteq> bc_ymin this \<Longrightarrow>
           isYmin patch \<and> vget2 (boundary_conditions species) 1 0 \<noteq> Inr ''periodic''"
    and "bc_ymax this' \<noteq> bc_ymax this \<Longrightarrow>
           isYmax patch \<and> vget2 (boundary_conditions species) 1 1 \<noteq> Inr ''periodic''"
    and "bc_zmin this' \<noteq> bc_zmin this \<Longrightarrow>
           isZmin patch \<and> vget2 (boundary_conditions species) 2 0 \<noteq> Inr ''periodic''"
    and "bc_zmax this' \<noteq> bc_zmax this \<Longrightarrow>
           isZmax patch \<and> vget2 (boundary_conditions species) 2 1 \<noteq> Inr ''periodic''"
proof -
  from assms(1) obtain t t' where
    t: "set_bc_ymin species patch remove this = Inr t" and
    t': "set_bc_ymax species patch remove t = Inr t'" and
    r: "define_bcs_z species patch remove t' = Inr this'"
    by (rule define_bcs_yz_steps)
  have ymin: "bc_ymin this' = bc_ymin t' \<and> bc_ymin t' = bc_ymin t"
    using define_bcs_z_frame[OF r, of bc_ymin] set_bc_ymax_frame[OF t', of bc_ymin] by simp
  have ymax: "bc_ymax this' = bc_ymax t' \<and> bc_ymax t = bc_ymax this"
    using define_bcs_z_frame[OF r, of bc_ymax] set_bc_ymin_frame[OF t, of bc_ymax] by simp
  have zmin: "bc_zmin t' = bc_zmin t \<and> bc_zmin t = bc_zmin this"
    using set_bc_ymax_frame[OF t', of bc_zmin] set_bc_ymin_frame[OF t, of bc_zmin] by simp
  have zmax: "bc_zmax t' = bc_zmax t \<and> bc_zmax t = bc_zmax this"
    using set_bc_ymax_frame[OF t', of bc_zmax] set_bc_ymin_frame[OF t, of bc_zmax] by simp
  show "bc_ymin this' \<noteq> bc_ymin this \<Longrightarrow>
           isYmin patch \<and> vget2 (boundary_conditions species) 1 0 \<noteq> Inr ''periodic''"
    using set_bc_ymin_Inr(2)[OF t] ymin by simp
  show "bc_ymax this' \<noteq> bc_ymax this \<Longrightarrow>
           isYmax patch \<and> vget2 (boundary_conditions species) 1 1 \<noteq> Inr ''periodic''"
    using set_bc_ymax_Inr(2)[OF t'] ymax by simp
  show "bc_zmin this' \<noteq> bc_zmin this \<Longrightarrow>
           isZmin patch \<and> vget2 (boundary_conditions species) 2 0 \<noteq> Inr ''periodic''"
    using define_bcs_z_faces(1)[OF r] zmin by simp
  show "bc_zmax this' \<noteq> bc_zmax this \<Longrightarrow>
           isZmax patch \<and> vget2 (boundary_conditions species) 2 1 \<noteq> Inr ''periodic''"
    using define_bcs_z_faces(2)[OF r] zmax by simp
qed

lemma define_bcs_yz_Inl:
  assumes "define_bcs_yz species patch remove this = Inl e"
  shows "e = OutOfRange \<or> (\<exists>f v. e = UnknownBC f v \<and> f \<in> {Ymin, Ymax, Zmin, Zmax})"
proof -
  from assms have "set_bc_ymin species patch remove this = Inl e
      \<or> (\<exists>t. set_bc_ymax species patch remove t = Inl e)
      \<or> (\<exists>t. define_bcs_z species patch remove t = Inl e)"
    unfolding define_bcs_yz_def bind_err_Inl by blast
  then show ?thesis
    using set_bc_ymin_Inl set_bc_ymax_Inl define_bcs_z_Inl by (elim disjE exE) blast+
qed

lemma define_bcs_transverse_cases:
  assumes "define_bcs_transverse species patch remove this = Inr this'"
  obtains (cart) "define_bcs_yz species patch remove this = Inr this'"
    | (rz) "set_bc_rz species patch this = Inr this'"
    | (one) "this = this'"
proof (cases "1 < PartBoundCond.nDim_particle this \<and> \<not> isRZ this")
  case True
  with assms have "define_bcs_yz species patch remove this = Inr this'"
    by (simp add: define_bcs_transverse_def)
  then show ?thesis by (rule cart)
next
  case no_cart: False
  show ?thesis
  proof (cases "isRZ this")
    case True
    with no_cart assms have "set_bc_rz species patch this = Inr this'"
      by (simp add: define_bcs_transverse_def)
    then show ?thesis by (rule rz)
  next
    case False
    with no_cart assms have "this = this'"
      by (simp add: define_bcs_transverse_def)
    then show ?thesis by (rule one)
  qed
qed

lemma define_bcs_transverse_frame:
  assumes "define_bcs_transverse species patch remove this = Inr this'"
    and y: "\<And>f t. g (t\<lparr>bc_ymin := f\<rparr>) = g t" "\<And>f t. g (t\<lparr>bc_ymax := f\<rparr>) = g t"
    and z: "\<And>f t. g (t\<lparr>bc_zmin := f\<rparr>) = g t" "\<And>f t. g (t\<lparr>bc_zmax := f\<rparr>) = g t"
  shows "g this' = g this"
  using assms(1)
proof (cases rule: define_bcs_transverse_cases)
  case cart
  then show ?thesis
    using y z by (rule define_bcs_yz_frame)
next
  case rz
  then show ?thesis
    using y(2) by (rule set_bc_rz_frame)
next
  case one
  then show ?thesis by simp
qed

lemma define_bcs_transverse_faces:
  assumes "define_bcs_transverse species patch remove this = Inr this'"
  shows "bc_ymin this' \<noteq> bc_ymin this \<Longrightarrow>
           isYmin patch \<and> vget2 (boundary_conditions species) 1 0 \<noteq> Inr ''periodic''"
    and "bc_ymax this' \<noteq> bc_ymax this \<Longrightarrow>
           isYmax patch \<and> vget2 (boundary_conditions species) 1 1 \<noteq> Inr ''periodic''"
    and "bc_zmin this' \<noteq> bc_zmin this \<Longrightarrow>
           isZmin patch \<and> vget2 (boundary_conditions species) 2 0 \<noteq> Inr ''periodic''"
    and "bc_zmax this' \<noteq> bc_zmax this \<Longrightarrow>
           isZmax patch \<and> vget2 (boundary_conditions species) 2 1 \<noteq> Inr ''periodic''"
proof -
  consider (cart) "define_bcs_yz species patch remove this = Inr this'"
    | (rz) "set_bc_rz species patch this = Inr this'"
    | (one) "this = this'"
    by (rule define_bcs_transverse_cases[OF assms])
  then have "(bc_ymin this' \<noteq> bc_ymin this \<longrightarrow>
           isYmin patch \<and> vget2 (boundary_conditions species) 1 0 \<noteq> Inr ''periodic'') \<and>
       (bc_ymax this' \<noteq> bc_ymax this \<longrightarrow>
           isYmax patch \<and> vget2 (boundary_conditions species) 1 1 \<noteq> Inr ''periodic'') \<and>
       (bc_zmin this' \<noteq> bc_zmin this \<longrightarrow>
           isZmin patch \<and> vget2 (boundary_conditions species) 2 0 \<noteq> Inr ''periodic'') \<and>
       (bc_zmax this' \<noteq> bc_zmax this \<longrightarrow>
           isZmax patch \<and> vget2 (boundary_conditions species) 2 1 \<noteq> Inr ''periodic'')"
  proof cases
    case cart
    show ?thesis
      using define_bcs_yz_faces[OF cart] by blast
  next
    case rz
    have "bc_ymin this' = bc_ymin this" "bc_zmin this' = bc_zmin this"
      "bc_zmax this' = bc_zmax this"
      using set_bc_rz_frame[OF rz, of bc_ymin] set_bc_rz_frame[OF rz, of bc_zmin]
        set_bc_rz_frame[OF rz, of bc_zmax] by simp_all
    then show ?thesis
      using set_bc_rz_Inr(2,3)[OF rz] by (simp split: if_splits)
  next
    case one
    then show ?thesis by simp
  qed
  then show "bc_ymin this' \<noteq> bc_ymin this \<Longrightarrow>
           isYmin patch \<and> vget2 (boundary_conditions species) 1 0 \<noteq> Inr ''periodic''"
    and "bc_ymax this' \<noteq> bc_ymax this \<Longrightarrow>
           isYmax patch \<and> vget2 (boundary_conditions species) 1 1 \<noteq> Inr ''periodic''"
    and "bc_zmin this' \<noteq> bc_zmin this \<Longrightarrow>
           isZmin patch \<and> vget2 (boundary_conditions species) 2 0 \<noteq> Inr ''periodic''"
    and "bc_zmax this' \<noteq> bc_zmax this \<Longrightarrow>
           isZmax patch \<and> vget2 (boundary_conditions species) 2 1 \<noteq> Inr ''periodic''"
    by blast+
qed

lemma define_bcs_steps:
  assumes "define_bcs species patch remove this = Inr this'"
  obtains t t' where "set_bc_xmin species patch remove this = Inr t"
    and "set_bc_xmax species patch remove t = Inr t'"
    and "define_bcs_transverse species patch remove t' = Inr this'"
  using assms unfolding define_bcs_def by (elim bind_err_InrE) blast

lemma define_bcs_frame:
  assumes "define_bcs species patch remove this = Inr this'"
    and x: "\<And>f t. g (t\<lparr>bc_xmin := f\<rparr>) = g t" "\<And>f t. g (t\<lparr>bc_xmax := f\<rparr>) = g t"
    and y: "\<And>f t. g (t\<lparr>bc_ymin := f\<rparr>) = g t" "\<And>f t. g (t\<lparr>bc_ymax := f\<rparr>) = g t"
    and z: "\<And>f t. g (t\<lparr>bc_zmin := f\<rparr>) = g t" "\<And>f t. g (t\<lparr>bc_zmax := f\<rparr>) = g t"
  shows "g this' = g this"
proof -
  from assms(1) obtain t t' where
    t: "set_bc_xmin species patch remove this = Inr t" and
    t': "set_bc_xmax species patch remove t = Inr t'" and
    r: "define_bcs_transverse species patch remove t' = Inr this'"
    by (rule define_bcs_steps)
  show ?thesis
    using set_bc_xmin_frame[OF t, of g] set_bc_xmax_frame[OF t', of g]
      define_bcs_transverse_frame[OF r, of g] x y z by simp
qed


lemma define_bcs_faces:
  assumes "define_bcs species patch remove this = Inr this'"
  shows "bc_xmin this' \<noteq> bc_xmin this \<Longrightarrow>
           isXmin patch \<and> vget2 (boundary_conditions species) 0 0 \<noteq> Inr ''periodic''"
    and "bc_xmax this' \<noteq> bc_xmax this \<Longrightarrow>
           isXmax patch \<and> vget2 (boundary_conditions species) 0 1 \<noteq> Inr ''periodic''"
    and "bc_ymin this' \<noteq> bc_ymin this \<Longrightarrow>
           isYmin patch \<and> vget2 (boundary_conditions species) 1 0 \<noteq> Inr ''periodic''"
    and "bc_ymax this' \<noteq> bc_ymax this \<Longrightarrow>
           isYmax patch \<and> vget2 (boundary_conditions species) 1 1 \<noteq> Inr ''periodic''"
    and "bc_zmin this' \<noteq> bc_zmin this \<Longrightarrow>
           isZmin patch \<and> vget2 (boundary_conditions species) 2 0 \<noteq> Inr ''periodic''"
    and "bc_zmax this' \<noteq> bc_zmax this \<Longrightarrow>
           isZmax patch \<and> vget2 (boundary_conditions species) 2 1 \<noteq> Inr ''periodic''"
proof -
  from assms(1) obtain t t' where
    t: "set_bc_xmin species patch remove this = Inr t" and
    t': "set_bc_xmax species patch remove t = Inr t'" and
    r: "define_bcs_transverse species patch remove t' = Inr this'"
    by (rule define_bcs_steps)
  have xmin: "bc_xmin this' = bc_xmin t' \<and> bc_xmin t' = bc_xmin t"
    using define_bcs_transverse_frame[OF r, of bc_xmin] set_bc_xmax_frame[OF t', of bc_xmin]
    by simp
  have xmax: "bc_xmax this' = bc_xmax t' \<and> bc_xmax t = bc_xmax this"
    using define_bcs_transverse_frame[OF r, of bc_xmax] set_bc_xmin_frame[OF t, of bc_xmax]
    by simp
  have ymin: "bc_ymin t' = bc_ymin t \<and> bc_ymin t = bc_ymin this"
    using set_bc_xmax_frame[OF t', of bc_ymin] set_bc_xmin_frame[OF t, of bc_ymin] by simp
  have ymax: "bc_ymax t' = bc_ymax t \<and> bc_ymax t = bc_ymax this"
    using set_bc_xmax_frame[OF t', of bc_ymax] set_bc_xmin_frame[OF t, of bc_ymax] by simp
  have zmin: "bc_zmin t' = bc_zmin t \<and> bc_zmin t = bc_zmin this"
    using set_bc_xmax_frame[OF t', of bc_zmin] set_bc_xmin_frame[OF t, of bc_zmin] by simp
  have zmax: "bc_zmax t' = bc_zmax t \<and> bc_zmax t = bc_zmax this"
    using set_bc_xmax_frame[OF t', of bc_zmax] set_bc_xmin_frame[OF t, of bc_zmax] by simp
  show "bc_xmin this' \<noteq> bc_xmin this \<Longrightarrow>
           isXmin patch \<and> vget2 (boundary_conditions species) 0 0 \<noteq> Inr ''periodic''"
    using set_bc_xmin_Inr(2)[OF t] xmin by simp
  show "bc_xmax this' \<noteq> bc_xmax this \<Longrightarrow>
           isXmax patch \<and> vget2 (boundary_conditions species) 0 1 \<noteq> Inr ''periodic''"
    using set_bc_xmax_Inr(2)[OF t'] xmax by simp
  show "bc_ymin this' \<noteq> bc_ymin this \<Longrightarrow>
           isYmin patch \<and> vget2 (boundary_conditions species) 1 0 \<noteq> Inr ''periodic''"
    using define_bcs_transverse_faces(1)[OF r] ymin by simp
  show "bc_ymax this' \<noteq> bc_ymax this \<Longrightarrow>
           isYmax patch \<and> vget2 (boundary_conditions species) 1 1 \<noteq> Inr ''periodic''"
    using define_bcs_transverse_faces(2)[OF r] ymax by simp
  show "bc_zmin this' \<noteq> bc_zmin this \<Longrightarrow>
           isZmin patch \<and> vget2 (boundary_conditions species) 2 0 \<noteq> Inr ''periodic''"
    using define_bcs_transverse_faces(3)[OF r] zmin by simp
  show "bc_zmax this' \<noteq> bc_zmax this \<Longrightarrow>
           isZmax patch \<and> vget2 (boundary_conditions species) 2 1 \<noteq> Inr ''periodic''"
    using define_bcs_transverse_faces(4)[OF r] zmax by simp
qed

lemma define_bcs_transverse_Inl:
  assumes "define_bcs_transverse species patch remove this = Inl e"
  shows "e = OutOfRange \<or> e = OnlyRemoveRz
       \<or> (\<exists>f v. e = UnknownBC f v \<and> f \<in> {Ymin, Ymax, Zmin, Zmax})"
proof -
  have "define_bcs_yz species patch remove this = Inl e \<or> set_bc_rz species patch this = Inl e"
    using assms unfolding define_bcs_transverse_def by (simp split: if_splits)
  then show ?thesis
    using define_bcs_yz_Inl set_bc_rz_Inl by blast
qed

lemma define_bcs_Inl:
  assumes "define_bcs species patch remove this = Inl e"
  shows "e = OutOfRange \<or> e = OnlyRemoveRz \<or> (\<exists>f v. e = UnknownBC f v)"
proof -
  from assms have "set_bc_xmin species patch remove this = Inl e
      \<or> (\<exists>t. set_bc_xmax species patch remove t = Inl e)
      \<or> (\<exists>t. define_bcs_transverse species patch remove t = Inl e)"
    unfolding define_bcs_def bind_err_Inl by blast
  then show ?thesis
    using set_bc_xmin_Inl set_bc_xmax_Inl define_bcs_transverse_Inl by (elim disjE exE) blast+
qed

subsection \<open>The limits of the local domain\<close>

lemma vget2_Inl: "vget2 t i j = Inl e \<Longrightarrow> e = OutOfRange"
  by (auto simp: vget2_def vget_def bind_err_Inl split: if_splits)

lemma global_max_Inl: "global_max params i = Inl e \<Longrightarrow> e = OutOfRange"
  by (auto simp: global_max_def vget_def bind_err_Inl split: if_splits)

lemma global_max_Inr:
  "global_max params i = Inr v \<Longrightarrow> v = cell_length params ! i * real (n_space_global params ! i)"
  by (auto simp: global_max_def vget_def bind_err_Inr split: if_splits)

lemma limits_x_Inr:
  assumes "limits_x params patch x_max_global this = Inr this'"
  shows "this' = this\<lparr>x_min := x_min this', x_max := x_max this'\<rparr>"
    and "vget2 (EM_BCs params) 0 0 = Inr ''periodic'' \<or> hasWindow params \<Longrightarrow>
           x_min this' = Some (getDomainLocalMin patch 0) \<and>
           x_max this' = Some (getDomainLocalMax patch 0)"
    and "vget2 (EM_BCs params) 0 0 \<noteq> Inr ''periodic'' \<Longrightarrow> \<not> hasWindow params \<Longrightarrow>
           x_min this' = Some (std_max 0 (getDomainLocalMin patch 0)) \<and>
           x_max this' = Some (std_min x_max_global (getDomainLocalMax patch 0))"
  using assms by (auto simp: limits_x_def bind_err_Inr split: if_splits)

lemma limits_x_frame:
  assumes "limits_x params patch x_max_global this = Inr this'"
    and "\<And>a b t. g (t\<lparr>x_min := a, x_max := b\<rparr>) = g t"
  shows "g this' = g this"
  using limits_x_Inr(1)[OF assms(1)] assms(2) by metis

lemma limits_y_Inr:
  assumes "limits_y params patch y_max_global this = Inr this'"
  shows "this' = this\<lparr>y_min := y_min this', y_max := y_max this'\<rparr>"
  using assms by (auto simp: limits_y_def bind_err_Inr split: if_splits)

lemma limits_y_frame:
  assumes "limits_y params patch y_max_global this = Inr this'"
    and "\<And>a b t. g (t\<lparr>y_min := a, y_max := b\<rparr>) = g t"
  shows "g this' = g this"
  using limits_y_Inr[OF assms(1)] assms(2) by metis

lemma limits_z_Inr:
  assumes "limits_z params patch z_max_global this = Inr this'"
  shows "this' = this\<lparr>z_min := z_min this', z_max := z_max this'\<rparr>"
  using assms by (auto simp: limits_z_def bind_err_Inr split: if_splits)

lemma limits_z_frame:
  assumes "limits_z params patch z_max_global this = Inr this'"
    and "\<And>a b t. g (t\<lparr>z_min := a, z_max := b\<rparr>) = g t"
  shows "g this' = g this"
  using limits_z_Inr[OF assms(1)] assms(2) by metis

lemma limits_yz_frame:
  assumes "limits_yz params patch y_max_global z_max_global this = Inr this'"
    and y: "\<And>a b t. g (t\<lparr>y_min := a, y_max := b\<rparr>) = g t"
    and z: "\<And>a b t. g (t\<lparr>z_min := a, z_max := b\<rparr>) = g t"
  shows "g this' = g this"
proof (cases "1 < PartBoundCond.nDim_particle this")
  case True
  with assms(1) obtain t where
    t: "limits_y params patch y_max_global this = Inr t" and
    r: "(if 2 < PartBoundCond.nDim_particle t \<and> \<not> isRZ t
         then limits_z params patch z_max_global t else Inr t) = Inr this'"
    unfolding limits_yz_def by (auto elim: bind_err_InrE)
  have "g t = g this"
    using t y by (rule limits_y_frame)
  moreover have "g this' = g t"
  proof (cases "2 < PartBoundCond.nDim_particle t \<and> \<not> isRZ t")
    case True
    with r have "limits_z params patch z_max_global t = Inr this'" by simp
    then show ?thesis using z by (rule limits_z_frame)
  next
    case False
    with r show ?thesis by simp
  qed
  ultimately show ?thesis by simp
next
  case False
  with assms(1) show ?thesis
    by (simp add: limits_yz_def)
qed

lemma limits_yz_Inl:
  assumes "limits_yz params patch y_max_global z_max_global this = Inl e"
  shows "e = OutOfRange"
proof -
  have y: "limits_y params patch y_max_global t = Inl e \<Longrightarrow> e = OutOfRange" for t
    by (auto simp: limits_y_def bind_err_Inl split: if_splits dest: vget2_Inl)
  have z: "limits_z params patch z_max_global t = Inl e \<Longrightarrow> e = OutOfRange" for t
    by (auto simp: limits_z_def bind_err_Inl split: if_splits dest: vget2_Inl)
  from assms have "limits_y params patch y_max_global this = Inl e
      \<or> (\<exists>t. limits_z params patch z_max_global t = Inl e)"
    by (auto simp: limits_yz_def bind_err_Inl split: if_splits)
  then show ?thesis
    using y z by blast
qed

lemma define_limits_steps:
  assumes "define_limits params patch xg yg zg this = Inr this'"
  obtains t where "limits_x params patch xg this = Inr t"
    and "limits_yz params patch yg zg t = Inr this'"
  using assms unfolding define_limits_def by (rule bind_err_InrE)

lemma define_limits_frame:
  assumes "define_limits params patch xg yg zg this = Inr this'"
    and x: "\<And>a b t. g (t\<lparr>x_min := a, x_max := b\<rparr>) = g t"
    and y: "\<And>a b t. g (t\<lparr>y_min := a, y_max := b\<rparr>) = g t"
    and z: "\<And>a b t. g (t\<lparr>z_min := a, z_max := b\<rparr>) = g t"
  shows "g this' = g this"
proof -
  from assms(1) obtain t where
    t: "limits_x params patch xg this = Inr t" and
    r: "limits_yz params patch yg zg t = Inr this'"
    by (rule define_limits_steps)
  show ?thesis
    using limits_x_frame[OF t, of g] limits_yz_frame[OF r, of g] x y z by simp
qed

lemma define_limits_Inl:
  assumes "define_limits params patch xg yg zg this = Inl e"
  shows "e = OutOfRange"
proof -
  have x: "limits_x params patch xg this = Inl e \<Longrightarrow> e = OutOfRange"
    by (auto simp: limits_x_def bind_err_Inl split: if_splits dest: vget2_Inl)
  from assms have "limits_x params patch xg this = Inl e
      \<or> (\<exists>t. limits_yz params patch yg zg t = Inl e)"
    unfolding define_limits_def bind_err_Inl by blast
  then show ?thesis
    using x limits_yz_Inl by blast
qed

lemma define_limits_x:
  assumes "define_limits params patch xg yg zg this = Inr this'"
  shows "vget2 (EM_BCs params) 0 0 = Inr ''periodic'' \<or> hasWindow params \<Longrightarrow>
           x_min this' = Some (getDomainLocalMin patch 0) \<and>
           x_max this' = Some (getDomainLocalMax patch 0)"
    and "vget2 (EM_BCs params) 0 0 \<noteq> Inr ''periodic'' \<Longrightarrow> \<not> hasWindow params \<Longrightarrow>
           x_min this' = Some (std_max 0 (getDomainLocalMin patch 0)) \<and>
           x_max this' = Some (std_min xg (getDomainLocalMax patch 0))"
proof -
  from assms(1) obtain t where
    t: "limits_x params patch xg this = Inr t" and
    r: "limits_yz params patch yg zg t = Inr this'"
    by (rule define_limits_steps)
  have same: "x_min this' = x_min t \<and> x_max this' = x_max t"
    using limits_yz_frame[OF r, of x_min] limits_yz_frame[OF r, of x_max] by simp
  show "vget2 (EM_BCs params) 0 0 = Inr ''periodic'' \<or> hasWindow params \<Longrightarrow>
           x_min this' = Some (getDomainLocalMin patch 0) \<and>
           x_max this' = Some (getDomainLocalMax patch 0)"
    using limits_x_Inr(2)[OF t] same by simp
  show "vget2 (EM_BCs params) 0 0 \<noteq> Inr ''periodic'' \<Longrightarrow> \<not> hasWindow params \<Longrightarrow>
           x_min this' = Some (std_max 0 (getDomainLocalMin patch 0)) \<and>
           x_max this' = Some (std_min xg (getDomainLocalMax patch 0))"
    using limits_x_Inr(3)[OF t] same by simp
qed


subsection \<open>The check of the periodic conditions\<close>

lemma side_mismatch_Inl: "side_mismatch params species iDim s = Inl e \<Longrightarrow> e = OutOfRange"
  by (auto simp: side_mismatch_def bind_err_Inl split: if_splits dest: vget2_Inl)

lemma side_mismatch_Inr:
  "side_mismatch params species iDim s = Inr b \<Longrightarrow> b = violates params species iDim s"
  by (auto simp: side_mismatch_def violates_def bind_err_Inr split: if_splits)

lemma axis_mismatch_Inl: "axis_mismatch params species iDim = Inl e \<Longrightarrow> e = OutOfRange"
  by (auto simp: axis_mismatch_def bind_err_Inl split: if_splits dest: side_mismatch_Inl)

lemma axis_mismatch_Inr:
  "axis_mismatch params species iDim = Inr b \<Longrightarrow>
   b = (violates params species iDim 0 \<or> violates params species iDim 1)"
  by (auto simp: axis_mismatch_def bind_err_Inr split: if_splits dest: side_mismatch_Inr)

lemma check_BCs_from_Inl:
  "check_BCs_from params species n iDim = Inl e \<Longrightarrow>
   e = OutOfRange \<or>
   (\<exists>j. iDim \<le> j \<and> j < n \<and> e = PeriodicRequired (name species) j \<and>
        (violates params species j 0 \<or> violates params species j 1))"
proof (induction params species n iDim rule: check_BCs_from.induct)
  case (1 params species n iDim)
  show ?case
  proof (cases "iDim < n")
    case False
    with "1.prems" show ?thesis by simp
  next
    case less: True
    show ?thesis
    proof (cases "axis_mismatch params species iDim")
      case (Inl e')
      with less "1.prems" have "e = e'" by simp
      with Inl show ?thesis by (simp add: axis_mismatch_Inl)
    next
      case (Inr bad)
      show ?thesis
      proof (cases bad)
        case True
        with Inr less "1.prems" have "e = PeriodicRequired (name species) iDim" by simp
        moreover from Inr True
        have "violates params species iDim 0 \<or> violates params species iDim 1"
          using axis_mismatch_Inr by blast
        ultimately show ?thesis using less by blast
      next
        case False
        with Inr less "1.prems"
        have "check_BCs_from params species n (iDim + 1) = Inl e" by simp
        with "1.IH"[OF less Inr False]
        have "e = OutOfRange \<or>
          (\<exists>j. iDim + 1 \<le> j \<and> j < n \<and> e = PeriodicRequired (name species) j \<and>
               (violates params species j 0 \<or> violates params species j 1))"
          by simp
        then show ?thesis
        proof
          assume "e = OutOfRange"
          then show ?thesis by simp
        next
          assume "\<exists>j. iDim + 1 \<le> j \<and> j < n \<and> e = PeriodicRequired (name species) j \<and>
               (violates params species j 0 \<or> violates params species j 1)"
          then obtain j where j: "iDim + 1 \<le> j" "j < n"
            "e = PeriodicRequired (name species) j"
            "violates params species j 0 \<or> violates params species j 1"
            by blast
          from j(1) have "iDim \<le> j" by simp
          with j(2,3,4) show ?thesis by blast
        qed
      qed
    qed
  qed
qed

lemma check_BCs_from_Inr:
  "check_BCs_from params species n iDim = Inr u \<Longrightarrow> iDim \<le> j \<Longrightarrow> j < n \<Longrightarrow>
   \<not> violates params species j 0 \<and> \<not> violates params species j 1"
proof (induction params species n iDim rule: check_BCs_from.induct)
  case (1 params species n iDim)
  from "1.prems" have less: "iDim < n" by simp
  show ?case
  proof (cases "axis_mismatch params species iDim")
    case (Inl e')
    with less "1.prems" show ?thesis by simp
  next
    case (Inr bad)
    show ?thesis
    proof (cases bad)
      case True
      with Inr less "1.prems" show ?thesis by simp
    next
      case False
      with Inr less "1.prems"
      have rest: "check_BCs_from params species n (iDim + 1) = Inr u" by simp
      show ?thesis
      proof (cases "j = iDim")
        case True
        with Inr False show ?thesis
          using axis_mismatch_Inr by blast
      next
        case False
        with "1.prems" have "iDim + 1 \<le> j" by simp
        with "1.IH"[OF less Inr \<open>\<not> bad\<close> rest] "1.prems" show ?thesis by simp
      qed
    qed
  qed
qed

subsection \<open>The steps of the constructor\<close>

lemma init_members_simps [simp]:
  "isRZ (init_members params) = (geometry params = ''3drz'')"
  "PartBoundCond.nDim_particle (init_members params) = Params.nDim_particle params"
  "PartBoundCond.nDim_field (init_members params) = Params.nDim_field params"
  "bc_xmin (init_members params) = None" "bc_xmax (init_members params) = None"
  "bc_ymin (init_members params) = None" "bc_ymax (init_members params) = None"
  "bc_zmin (init_members params) = None" "bc_zmax (init_members params) = None"
  by (simp_all add: init_members_def)

lemma new_PartBoundCond_steps:
  assumes "new_PartBoundCond params species patch = Inr pbc"
  obtains xg yg zg this where
    "global_max params 0 = Inr xg" "global_max params 1 = Inr yg" "global_max params 2 = Inr zg"
    "define_limits params patch xg yg zg (init_members params) = Inr this"
    "check_BCs params species this = Inr ()"
    "define_bcs species patch (select_remove species) this = Inr pbc"
  using assms unfolding new_PartBoundCond_def by (elim bind_err_InrE) simp

text \<open>
  Up to the check only a read out of range can fail; from the check on the object has
  its limits and the members copied from the parameters.
\<close>

lemma new_PartBoundCond_from_check:
  obtains (early) "new_PartBoundCond params species patch = Inl OutOfRange"
  | (checked) xg yg zg this where
      "global_max params 0 = Inr xg"
      "define_limits params patch xg yg zg (init_members params) = Inr this"
      "new_PartBoundCond params species patch =
         bind_err (check_BCs params species this) (\<lambda>_.
           define_bcs species patch (select_remove species) this)"
proof (cases "global_max params 0")
  case (Inl e)
  then have "new_PartBoundCond params species patch = Inl OutOfRange"
    using global_max_Inl[OF Inl] by (simp add: new_PartBoundCond_def)
  then show ?thesis by (rule early)
next
  case xg: (Inr xg)
  show ?thesis
  proof (cases "global_max params 1")
    case (Inl e)
    then have "new_PartBoundCond params species patch = Inl OutOfRange"
      using global_max_Inl[OF Inl] xg by (simp add: new_PartBoundCond_def)
    then show ?thesis by (rule early)
  next
    case yg: (Inr yg)
    show ?thesis
    proof (cases "global_max params 2")
      case (Inl e)
      then have "new_PartBoundCond params species patch = Inl OutOfRange"
        using global_max_Inl[OF Inl] xg yg by (simp add: new_PartBoundCond_def)
      then show ?thesis by (rule early)
    next
      case zg: (Inr zg)
      show ?thesis
      proof (cases "define_limits params patch xg yg zg (init_members params)")
        case (Inl e)
        then have "new_PartBoundCond params species patch = Inl OutOfRange"
          using define_limits_Inl[OF Inl] xg yg zg by (simp add: new_PartBoundCond_def)
        then show ?thesis by (rule early)
      next
        case (Inr this)
        have "new_PartBoundCond params species patch =
           bind_err (check_BCs params species this) (\<lambda>_.
             define_bcs species patch (select_remove species) this)"
          using xg yg zg Inr by (simp add: new_PartBoundCond_def)
        with xg Inr show ?thesis by (rule checked)
      qed
    qed
  qed
qed

lemma define_limits_members:
  assumes "define_limits params patch xg yg zg (init_members params) = Inr this"
  shows "isRZ this = (geometry params = ''3drz'')"
    and "PartBoundCond.nDim_particle this = Params.nDim_particle params"
    and "PartBoundCond.nDim_field this = Params.nDim_field params"
    and "bc_xmin this = None" and "bc_xmax this = None" and "bc_ymin this = None"
    and "bc_ymax this = None" and "bc_zmin this = None" and "bc_zmax this = None"
  using define_limits_frame[OF assms, of isRZ]
    define_limits_frame[OF assms, of PartBoundCond.nDim_particle]
    define_limits_frame[OF assms, of PartBoundCond.nDim_field]
    define_limits_frame[OF assms, of bc_xmin] define_limits_frame[OF assms, of bc_xmax]
    define_limits_frame[OF assms, of bc_ymin] define_limits_frame[OF assms, of bc_ymax]
    define_limits_frame[OF assms, of bc_zmin] define_limits_frame[OF assms, of bc_zmax]
  by simp_all


subsection \<open>The axisymmetric branch\<close>

lemma define_bcs_rz_steps:
  assumes "define_bcs species patch remove this = Inr pbc" and "isRZ this"
  obtains t t' where "set_bc_xmin species patch remove this = Inr t"
    and "set_bc_xmax species patch remove t = Inr t'"
    and "set_bc_rz species patch t' = Inr pbc"
proof -
  from assms(1) obtain t t' where
    t: "set_bc_xmin species patch remove this = Inr t" and
    t': "set_bc_xmax species patch remove t = Inr t'" and
    r: "define_bcs_transverse species patch remove t' = Inr pbc"
    by (rule define_bcs_steps)
  have "isRZ t'"
    using set_bc_xmin_frame[OF t, of isRZ] set_bc_xmax_frame[OF t', of isRZ] assms(2) by simp
  with r have "set_bc_rz species patch t' = Inr pbc"
    by (simp add: define_bcs_transverse_def)
  with t t' show ?thesis by (rule that)
qed

lemma define_bcs_rz_Inr:
  assumes "define_bcs species patch remove this = Inr pbc" and "isRZ this"
  shows "vget2 (boundary_conditions species) 1 1 = Inr ''remove''"
    and "bc_ymin pbc = bc_ymin this"
    and "bc_ymax pbc = (if isYmax patch then Some remove_particle else bc_ymax this)"
proof -
  from assms obtain t t' where
    t: "set_bc_xmin species patch remove this = Inr t" and
    t': "set_bc_xmax species patch remove t = Inr t'" and
    r: "set_bc_rz species patch t' = Inr pbc"
    by (rule define_bcs_rz_steps)
  show "vget2 (boundary_conditions species) 1 1 = Inr ''remove''"
    using r by (rule set_bc_rz_Inr)
  show "bc_ymin pbc = bc_ymin this"
    using set_bc_xmin_frame[OF t, of bc_ymin] set_bc_xmax_frame[OF t', of bc_ymin]
      set_bc_rz_frame[OF r, of bc_ymin] by simp
  have "bc_ymax t' = bc_ymax this"
    using set_bc_xmin_frame[OF t, of bc_ymax] set_bc_xmax_frame[OF t', of bc_ymax] by simp
  then show "bc_ymax pbc = (if isYmax patch then Some remove_particle else bc_ymax this)"
    using set_bc_rz_Inr(3)[OF r] by simp
qed

lemma define_bcs_rz_Inl:
  assumes "define_bcs species patch remove this = Inl e" and "isRZ this"
  shows "e = OnlyRemoveRz \<or> e = OutOfRange
       \<or> (\<exists>w. e = UnknownBC Xmin w) \<or> (\<exists>w. e = UnknownBC Xmax w)"
proof -
  from assms(1) have "bind_err (set_bc_xmin species patch remove this) (\<lambda>this.
     bind_err (set_bc_xmax species patch remove this) (\<lambda>this.
       define_bcs_transverse species patch remove this)) = Inl e"
    by (simp add: define_bcs_def)
  then show ?thesis
  proof (rule bind_err_InlE)
    assume "set_bc_xmin species patch remove this = Inl e"
    from set_bc_xmin_Inl[OF this] show ?thesis by blast
  next
    fix t
    assume t: "set_bc_xmin species patch remove this = Inr t"
      and "bind_err (set_bc_xmax species patch remove t) (\<lambda>this.
             define_bcs_transverse species patch remove this) = Inl e"
    from this(2) show ?thesis
    proof (rule bind_err_InlE)
      assume "set_bc_xmax species patch remove t = Inl e"
      from set_bc_xmax_Inl[OF this] show ?thesis by blast
    next
      fix t'
      assume t': "set_bc_xmax species patch remove t = Inr t'"
        and r: "define_bcs_transverse species patch remove t' = Inl e"
      have "isRZ t'"
        using set_bc_xmin_frame[OF t, of isRZ] set_bc_xmax_frame[OF t', of isRZ] assms(2)
        by simp
      with r have "set_bc_rz species patch t' = Inl e"
        by (simp add: define_bcs_transverse_def)
      from set_bc_rz_Inl[OF this] show ?thesis by blast
    qed
  qed
qed

lemma check_BCs_Inl:
  assumes "check_BCs params species this = Inl e"
  shows "e = OutOfRange \<or> (\<exists>i. e = PeriodicRequired (name species) i)"
proof -
  from assms have "check_BCs_from params species (PartBoundCond.nDim_field this) 0 = Inl e"
    by (simp add: check_BCs_def split: if_splits)
  from check_BCs_from_Inl[OF this] show ?thesis by blast
qed

subsection \<open>The value configured at the inner radius\<close>

lemma with_inner_radius_simps [simp]:
  "name (with_inner_radius v species) = name species"
  "mass (with_inner_radius v species) = mass species"
  "particles (with_inner_radius v species) = particles species"
  by (simp_all add: with_inner_radius_def)

lemma vget2_with_inner_radius:
  assumes "(i, j) \<noteq> (1, 0)"
  shows "vget2 (boundary_conditions (with_inner_radius v species)) i j
         = vget2 (boundary_conditions species) i j"
proof (cases "i = 1")
  case True
  with assms have "j \<noteq> 0" by simp
  with True show ?thesis
    by (simp add: with_inner_radius_def vget2_def vget_def)
next
  case False
  then show ?thesis
    by (simp add: with_inner_radius_def vget2_def vget_def)
qed

lemma side_mismatch_with_inner_radius:
  assumes "vget2 (EM_BCs params) 1 0 \<noteq> Inr ''periodic''"
  shows "side_mismatch params (with_inner_radius v species) iDim s
         = side_mismatch params species iDim s"
proof (cases "(iDim, s) = (1, 0)")
  case True
  with assms show ?thesis
    by (cases "vget2 (EM_BCs params) 1 0") (simp_all add: side_mismatch_def)
next
  case False
  show ?thesis
    unfolding side_mismatch_def vget2_with_inner_radius[OF False] by (rule refl)
qed

lemma check_BCs_from_with_inner_radius:
  assumes "vget2 (EM_BCs params) 1 0 \<noteq> Inr ''periodic''"
  shows "check_BCs_from params (with_inner_radius v species) n iDim
         = check_BCs_from params species n iDim"
  using assms
proof (induction params species n iDim rule: check_BCs_from.induct)
  case (1 params species n iDim)
  have axis: "axis_mismatch params (with_inner_radius v species) iDim
              = axis_mismatch params species iDim"
    unfolding axis_mismatch_def side_mismatch_with_inner_radius[OF "1.prems"] by (rule refl)
  show ?case
  proof (cases "iDim < n")
    case False
    then show ?thesis by simp
  next
    case less: True
    show ?thesis
    proof (cases "axis_mismatch params species iDim")
      case (Inl e)
      with less axis show ?thesis by simp
    next
      case (Inr bad)
      show ?thesis
      proof (cases bad)
        case True
        with Inr less axis show ?thesis by simp
      next
        case False
        from "1.IH"[OF less Inr False "1.prems"] Inr False less axis
        show ?thesis by simp
      qed
    qed
  qed
qed

lemma check_BCs_with_inner_radius:
  assumes "tracked (particles species) \<or> vget2 (EM_BCs params) 1 0 \<noteq> Inr ''periodic''"
  shows "check_BCs params (with_inner_radius v species) this = check_BCs params species this"
proof (cases "tracked (particles species)")
  case True
  then show ?thesis by (simp add: check_BCs_def)
next
  case False
  with assms have em: "vget2 (EM_BCs params) 1 0 \<noteq> Inr ''periodic''" by simp
  show ?thesis
    unfolding check_BCs_def check_BCs_from_with_inner_radius[OF em] with_inner_radius_simps
    by (rule refl)
qed

lemma define_bcs_rz_with_inner_radius:
  assumes "isRZ this"
  shows "define_bcs (with_inner_radius v species) patch remove this
         = define_bcs species patch remove this"
proof -
  let ?species' = "with_inner_radius v species"
  have xmin: "set_bc_xmin ?species' patch remove t = set_bc_xmin species patch remove t" for t
    by (simp add: set_bc_xmin_def vget2_with_inner_radius)
  have xmax: "set_bc_xmax ?species' patch remove t = set_bc_xmax species patch remove t" for t
    by (simp add: set_bc_xmax_def vget2_with_inner_radius)
  have rz: "set_bc_rz ?species' patch t = set_bc_rz species patch t" for t
    by (simp add: set_bc_rz_def vget2_with_inner_radius)
  have tr: "define_bcs_transverse ?species' patch remove t
              = define_bcs_transverse species patch remove t" if "isRZ t" for t
    using that rz by (simp add: define_bcs_transverse_def)
  have "bind_err (set_bc_xmin species patch remove this) (\<lambda>this.
          bind_err (set_bc_xmax species patch remove this) (\<lambda>this.
            define_bcs_transverse ?species' patch remove this))
      = bind_err (set_bc_xmin species patch remove this) (\<lambda>this.
          bind_err (set_bc_xmax species patch remove this) (\<lambda>this.
            define_bcs_transverse species patch remove this))"
  proof (rule bind_err_same)
    fix t
    assume t: "set_bc_xmin species patch remove this = Inr t"
    show "bind_err (set_bc_xmax species patch remove t) (\<lambda>this.
            define_bcs_transverse ?species' patch remove this)
        = bind_err (set_bc_xmax species patch remove t) (\<lambda>this.
            define_bcs_transverse species patch remove this)"
    proof (rule bind_err_same)
      fix t'
      assume t': "set_bc_xmax species patch remove t = Inr t'"
      have "isRZ t'"
        using set_bc_xmin_frame[OF t, of isRZ] set_bc_xmax_frame[OF t', of isRZ] assms
        by simp
      then show "define_bcs_transverse ?species' patch remove t'
          = define_bcs_transverse species patch remove t'"
        by (rule tr)
    qed
  qed
  then show ?thesis
    by (simp add: define_bcs_def xmin xmax)
qed

lemma new_PartBoundCond_rz_with_inner_radius:
  assumes "geometry params = ''3drz''"
    and "tracked (particles species) \<or> vget2 (EM_BCs params) 1 0 \<noteq> Inr ''periodic''"
  shows "new_PartBoundCond params (with_inner_radius v species) patch
         = new_PartBoundCond params species patch"
proof -
  let ?species' = "with_inner_radius v species"
  have sel: "select_remove ?species' = select_remove species"
    by (simp add: select_remove_def)
  have tail: "bind_err (check_BCs params ?species' this) (\<lambda>_.
                define_bcs ?species' patch (select_remove ?species') this)
            = bind_err (check_BCs params species this) (\<lambda>_.
                define_bcs species patch (select_remove species) this)"
    if "define_limits params patch xg yg zg (init_members params) = Inr this"
    for xg yg zg this
  proof -
    have "isRZ this"
      using define_limits_members(1)[OF that] assms(1) by simp
    then show ?thesis
      using assms(2)
      by (simp add: check_BCs_with_inner_radius sel define_bcs_rz_with_inner_radius)
  qed
  show ?thesis
    unfolding new_PartBoundCond_def
    by (intro bind_err_same tail)
qed

section \<open>The claims about the constructor\<close>

text \<open>
  C1, as the claim states it, read at the level of an axis: the electromagnetic condition
  is periodic on one side of the axis and the species is not periodic on the axis. The
  claim fails there: with the fields periodic at Xmin only and the species periodic at
  Xmin and reflective at Xmax, the species is not tracked, the condition of the fields at
  Xmin is periodic, the condition of the species at Xmax is not, and the constructor
  returns an object. The test of lines 82 and 83 compares side with side.
\<close>

theorem C1_axis_level_counterexample:
  "\<not> tracked (particles species_x_mixed) \<and>
   (0::nat) < Params.nDim_field params_x_mixed \<and>
   vget2 (EM_BCs params_x_mixed) 0 0 = Inr ''periodic'' \<and>
   vget2 (boundary_conditions species_x_mixed) 0 1 = Inr ''reflective'' \<and>
   new_PartBoundCond params_x_mixed species_x_mixed patch_whole =
     Inr \<lparr>isRZ = False, nDim_particle = 1, nDim_field = 1,
          x_min = Some 0, x_max = Some 10, y_min = None, y_max = None,
          z_min = None, z_max = None,
          bc_xmin = None, bc_xmax = Some reflect_particle, bc_ymin = None, bc_ymax = None,
          bc_zmin = None, bc_zmax = None\<rparr>"
  by (simp add: params_x_mixed_def species_x_mixed_def patch_whole_def
      new_PartBoundCond_def global_max_def vget_def vget2_def init_members_def
      define_limits_def limits_x_def limits_yz_def check_BCs_def axis_mismatch_def
      side_mismatch_def select_remove_def define_bcs_def set_bc_xmin_def set_bc_xmax_def
      define_bcs_transverse_def)

text \<open>
  C1, amended: for a species that is not tracked, and when no read leaves its vector,
  the constructor fails with the error of line 84 exactly when, on some axis below
  \<open>nDim_field\<close> and on some side of it, the electromagnetic condition is periodic and
  the condition of the species on that same side is not. Otherwise the construction
  goes on without this error.
\<close>

theorem C1_periodic_rule_side_by_side:
  assumes "\<not> tracked (particles species)"
    and "new_PartBoundCond params species patch \<noteq> Inl OutOfRange"
  shows "(\<exists>i<Params.nDim_field params. violates params species i 0 \<or> violates params species i 1)
     \<longleftrightarrow> (\<exists>i<Params.nDim_field params.
            new_PartBoundCond params species patch = Inl (PeriodicRequired (name species) i))"
proof (cases rule: new_PartBoundCond_from_check[of params species patch])
  case early
  with assms(2) show ?thesis by simp
next
  case (checked xg yg zg this)
  have n: "PartBoundCond.nDim_field this = Params.nDim_field params"
    using checked(2) by (rule define_limits_members)
  have chk: "check_BCs params species this =
      check_BCs_from params species (Params.nDim_field params) 0"
    using assms(1) n by (simp add: check_BCs_def)
  show ?thesis
  proof
    assume "\<exists>i<Params.nDim_field params. violates params species i 0 \<or> violates params species i 1"
    then obtain i where i: "i < Params.nDim_field params"
      "violates params species i 0 \<or> violates params species i 1"
      by blast
    show "\<exists>i<Params.nDim_field params.
            new_PartBoundCond params species patch = Inl (PeriodicRequired (name species) i)"
    proof (cases "check_BCs_from params species (Params.nDim_field params) 0")
      case (Inr u)
      from check_BCs_from_Inr[OF Inr _ i(1)] i(2) show ?thesis by simp
    next
      case (Inl e)
      with chk checked(3) have r: "new_PartBoundCond params species patch = Inl e" by simp
      with assms(2) have "e \<noteq> OutOfRange" by simp
      with check_BCs_from_Inl[OF Inl] r show ?thesis by auto
    qed
  next
    assume "\<exists>i<Params.nDim_field params.
            new_PartBoundCond params species patch = Inl (PeriodicRequired (name species) i)"
    then obtain i where
      r: "new_PartBoundCond params species patch = Inl (PeriodicRequired (name species) i)"
      by blast
    with checked(3) have "bind_err (check_BCs params species this) (\<lambda>_.
           define_bcs species patch (select_remove species) this)
         = Inl (PeriodicRequired (name species) i)"
      by simp
    then have "check_BCs params species this = Inl (PeriodicRequired (name species) i)"
    proof (rule bind_err_InlE)
      fix v
      assume "define_bcs species patch (select_remove species) this
                = Inl (PeriodicRequired (name species) i)"
      from define_bcs_Inl[OF this]
      show "check_BCs params species this = Inl (PeriodicRequired (name species) i)"
        by simp
    qed
    with chk have "check_BCs_from params species (Params.nDim_field params) 0
        = Inl (PeriodicRequired (name species) i)"
      by simp
    from check_BCs_from_Inl[OF this]
    show "\<exists>i<Params.nDim_field params. violates params species i 0 \<or> violates params species i 1"
      by auto
  qed
qed

theorem C1_periodic_rule_witness:
  "\<not> tracked (particles species_x_reflective) \<and>
   new_PartBoundCond params_x_periodic species_x_reflective patch_whole \<noteq> Inl OutOfRange \<and>
   violates params_x_periodic species_x_reflective 0 0 \<and>
   (\<exists>i<Params.nDim_field params_x_periodic.
      new_PartBoundCond params_x_periodic species_x_reflective patch_whole
        = Inl (PeriodicRequired (name species_x_reflective) i))"
proof -
  have t: "\<not> tracked (particles species_x_reflective)"
    by (simp add: species_x_reflective_def)
  have r: "new_PartBoundCond params_x_periodic species_x_reflective patch_whole
             = Inl (PeriodicRequired ''ion'' 0)"
    by (simp add: params_x_periodic_def species_x_reflective_def patch_whole_def
        new_PartBoundCond_def global_max_def vget_def vget2_def init_members_def
        define_limits_def limits_x_def limits_yz_def check_BCs_def axis_mismatch_def
        side_mismatch_def)
  have v: "violates params_x_periodic species_x_reflective 0 0"
    by (simp add: violates_def params_x_periodic_def species_x_reflective_def vget_def vget2_def)
  have n: "(0::nat) < Params.nDim_field params_x_periodic"
    by (simp add: params_x_periodic_def)
  from r have ok: "new_PartBoundCond params_x_periodic species_x_reflective patch_whole
      \<noteq> Inl OutOfRange"
    by simp
  from C1_periodic_rule_side_by_side[OF t ok] v n
  have "\<exists>i<Params.nDim_field params_x_periodic.
      new_PartBoundCond params_x_periodic species_x_reflective patch_whole
        = Inl (PeriodicRequired (name species_x_reflective) i)"
    by blast
  with t ok v show ?thesis by blast
qed

text \<open>
  C6: when the constructor returns an object, the pointer of a face is \<^verbatim>\<open>NULL\<close> whenever
  the patch is not at the global boundary on that face, and whenever the condition
  configured for that face is periodic; a pointer is stored only on a face of the global
  boundary.
\<close>

theorem C6_pointers_only_on_global_boundary:
  assumes "new_PartBoundCond params species patch = Inr pbc"
  shows "(\<not> isXmin patch \<or> vget2 (boundary_conditions species) 0 0 = Inr ''periodic''
            \<longrightarrow> bc_xmin pbc = None) \<and>
         (\<not> isXmax patch \<or> vget2 (boundary_conditions species) 0 1 = Inr ''periodic''
            \<longrightarrow> bc_xmax pbc = None) \<and>
         (\<not> isYmin patch \<or> vget2 (boundary_conditions species) 1 0 = Inr ''periodic''
            \<longrightarrow> bc_ymin pbc = None) \<and>
         (\<not> isYmax patch \<or> vget2 (boundary_conditions species) 1 1 = Inr ''periodic''
            \<longrightarrow> bc_ymax pbc = None) \<and>
         (\<not> isZmin patch \<or> vget2 (boundary_conditions species) 2 0 = Inr ''periodic''
            \<longrightarrow> bc_zmin pbc = None) \<and>
         (\<not> isZmax patch \<or> vget2 (boundary_conditions species) 2 1 = Inr ''periodic''
            \<longrightarrow> bc_zmax pbc = None)"
proof -
  from assms obtain xg yg zg this where
    lim: "define_limits params patch xg yg zg (init_members params) = Inr this" and
    bcs: "define_bcs species patch (select_remove species) this = Inr pbc"
    by (rule new_PartBoundCond_steps)
  note null = define_limits_members(4-9)[OF lim]
  show ?thesis
    using define_bcs_faces[OF bcs] unfolding null by blast
qed

theorem C6_pointers_witness:
  "new_PartBoundCond params_2d species_2d patch_corner =
     Inr \<lparr>isRZ = False, nDim_particle = 2, nDim_field = 2,
          x_min = Some 0, x_max = Some 5, y_min = Some 0, y_max = Some 5,
          z_min = None, z_max = None,
          bc_xmin = Some reflect_particle, bc_xmax = None, bc_ymin = None, bc_ymax = None,
          bc_zmin = None, bc_zmax = None\<rparr> \<and>
   \<not> isXmax patch_corner \<and> isYmin patch_corner \<and>
   vget2 (boundary_conditions species_2d) 0 1 = Inr ''stop'' \<and>
   vget2 (boundary_conditions species_2d) 1 0 = Inr ''periodic''"
proof -
  have r: "new_PartBoundCond params_2d species_2d patch_corner =
     Inr \<lparr>isRZ = False, nDim_particle = 2, nDim_field = 2,
          x_min = Some 0, x_max = Some 5, y_min = Some 0, y_max = Some 5,
          z_min = None, z_max = None,
          bc_xmin = Some reflect_particle, bc_xmax = None, bc_ymin = None, bc_ymax = None,
          bc_zmin = None, bc_zmax = None\<rparr>"
    by (simp add: params_2d_def species_2d_def patch_corner_def
        new_PartBoundCond_def global_max_def vget_def vget2_def init_members_def
        define_limits_def limits_x_def limits_y_def limits_yz_def check_BCs_def
        axis_mismatch_def side_mismatch_def select_remove_def define_bcs_def
        set_bc_xmin_def set_bc_xmax_def set_bc_ymin_def set_bc_ymax_def
        define_bcs_transverse_def define_bcs_yz_def define_bcs_z_def
        std_max_def std_min_def numeral_2_eq_2)
  have c: "\<not> isXmax patch_corner \<and> isYmin patch_corner \<and>
      vget2 (boundary_conditions species_2d) 0 1 = Inr ''stop'' \<and>
      vget2 (boundary_conditions species_2d) 1 0 = Inr ''periodic''"
    by (simp add: patch_corner_def species_2d_def vget_def vget2_def)
  from C6_pointers_only_on_global_boundary[OF r] r c show ?thesis
    by simp
qed

text \<open>
  C10: when the constructor returns an object, its x limits are the bounds of the patch
  whenever the moving window is enabled, as they are when the electromagnetic condition
  at Xmin is periodic; they are clamped to the global extent, from 0 to
  \<^verbatim>\<open>cell_length[0]*n_space_global[0]\<close>, only when that condition is not periodic and
  there is no window.
\<close>

theorem C10_window_keeps_local_x_limits:
  assumes "new_PartBoundCond params species patch = Inr pbc"
  shows "(hasWindow params \<or> vget2 (EM_BCs params) 0 0 = Inr ''periodic'' \<longrightarrow>
            x_min pbc = Some (getDomainLocalMin patch 0) \<and>
            x_max pbc = Some (getDomainLocalMax patch 0)) \<and>
         (\<not> hasWindow params \<and> vget2 (EM_BCs params) 0 0 \<noteq> Inr ''periodic'' \<longrightarrow>
            x_min pbc = Some (std_max 0 (getDomainLocalMin patch 0)) \<and>
            x_max pbc = Some (std_min (cell_length params ! 0 * real (n_space_global params ! 0))
                                      (getDomainLocalMax patch 0)))"
proof -
  from assms obtain xg yg zg this where
    xg: "global_max params 0 = Inr xg" and
    lim: "define_limits params patch xg yg zg (init_members params) = Inr this" and
    bcs: "define_bcs species patch (select_remove species) this = Inr pbc"
    by (rule new_PartBoundCond_steps)
  have same: "x_min pbc = x_min this \<and> x_max pbc = x_max this"
    using define_bcs_frame[OF bcs, of x_min] define_bcs_frame[OF bcs, of x_max] by simp
  have xg': "xg = cell_length params ! 0 * real (n_space_global params ! 0)"
    using xg by (rule global_max_Inr)
  show ?thesis
    using define_limits_x[OF lim] same unfolding xg' by auto
qed

theorem C10_window_witness:
  "hasWindow params_window \<and>
   vget2 (EM_BCs params_window) 0 0 = Inr ''silver-muller'' \<and>
   std_min (cell_length params_window ! 0 * real (n_space_global params_window ! 0))
           (getDomainLocalMax patch_moved 0) = 10 \<and>
   new_PartBoundCond params_window species_x_reflective patch_moved =
     Inr \<lparr>isRZ = False, nDim_particle = 1, nDim_field = 1,
          x_min = Some 5, x_max = Some 15, y_min = None, y_max = None,
          z_min = None, z_max = None,
          bc_xmin = None, bc_xmax = Some reflect_particle, bc_ymin = None, bc_ymax = None,
          bc_zmin = None, bc_zmax = None\<rparr>"
proof -
  have r: "new_PartBoundCond params_window species_x_reflective patch_moved =
     Inr \<lparr>isRZ = False, nDim_particle = 1, nDim_field = 1,
          x_min = Some 5, x_max = Some 15, y_min = None, y_max = None,
          z_min = None, z_max = None,
          bc_xmin = None, bc_xmax = Some reflect_particle, bc_ymin = None, bc_ymax = None,
          bc_zmin = None, bc_zmax = None\<rparr>"
    by (simp add: params_window_def species_x_reflective_def patch_moved_def
        new_PartBoundCond_def global_max_def vget_def vget2_def init_members_def
        define_limits_def limits_x_def limits_yz_def check_BCs_def axis_mismatch_def
        side_mismatch_def select_remove_def define_bcs_def set_bc_xmin_def set_bc_xmax_def
        define_bcs_transverse_def)
  have c: "hasWindow params_window \<and>
      vget2 (EM_BCs params_window) 0 0 = Inr ''silver-muller'' \<and>
      std_min (cell_length params_window ! 0 * real (n_space_global params_window ! 0))
           (getDomainLocalMax patch_moved 0) = 10"
    by (simp add: params_window_def patch_moved_def vget_def vget2_def std_min_def)
  from C10_window_keeps_local_x_limits[OF r] r c show ?thesis
    by simp
qed

text \<open>
  C2: in the geometry \<open>3drz\<close>,
  \<^item> whenever the condition of the species at the outer radial face (axis 1, side 1) is
    not \<open>remove\<close>, the constructor fails; the error is that of line 255 unless an earlier
    step has failed already (a read out of range, the periodic rule of line 84, an
    unknown condition at Xmin or Xmax);
  \<^item> whenever the constructor returns an object, no pointer is stored for the inner
    radius, and the pointer of the outer radius is \<^verbatim>\<open>remove_particle\<close> on a patch at
    the outer boundary;
  \<^item> the value configured at the inner radius is not looked at by the dispatch: unless
    the periodic rule reads it (the species is not tracked and the field is periodic
    there), replacing it by any value leaves the outcome as it is.
\<close>

theorem C2_rz_outer_radius_only_remove:
  assumes "geometry params = ''3drz''"
  shows "(vget2 (boundary_conditions species) 1 1 \<noteq> Inr ''remove'' \<longrightarrow>
            (\<exists>e. new_PartBoundCond params species patch = Inl e \<and>
                 (e = OnlyRemoveRz \<or> e = OutOfRange \<or>
                  (\<exists>i. e = PeriodicRequired (name species) i) \<or>
                  (\<exists>w. e = UnknownBC Xmin w) \<or> (\<exists>w. e = UnknownBC Xmax w)))) \<and>
         (\<forall>pbc. new_PartBoundCond params species patch = Inr pbc \<longrightarrow>
            bc_ymin pbc = None \<and>
            bc_ymax pbc = (if isYmax patch then Some remove_particle else None)) \<and>
         (tracked (particles species) \<or> vget2 (EM_BCs params) 1 0 \<noteq> Inr ''periodic'' \<longrightarrow>
            (\<forall>v. new_PartBoundCond params (with_inner_radius v species) patch
                   = new_PartBoundCond params species patch))"
proof (intro conjI impI allI)
  assume other: "vget2 (boundary_conditions species) 1 1 \<noteq> Inr ''remove''"
  show "\<exists>e. new_PartBoundCond params species patch = Inl e \<and>
           (e = OnlyRemoveRz \<or> e = OutOfRange \<or>
            (\<exists>i. e = PeriodicRequired (name species) i) \<or>
            (\<exists>w. e = UnknownBC Xmin w) \<or> (\<exists>w. e = UnknownBC Xmax w))"
  proof (cases rule: new_PartBoundCond_from_check[of params species patch])
    case early
    then show ?thesis by simp
  next
    case (checked xg yg zg this)
    have rz: "isRZ this"
      using define_limits_members(1)[OF checked(2)] assms by simp
    show ?thesis
    proof (cases "new_PartBoundCond params species patch")
      case (Inr pbc)
      with checked(3) have "bind_err (check_BCs params species this) (\<lambda>_.
           define_bcs species patch (select_remove species) this) = Inr pbc"
        by simp
      then have "define_bcs species patch (select_remove species) this = Inr pbc"
        by (rule bind_err_InrE)
      from define_bcs_rz_Inr(1)[OF this rz] other show ?thesis by simp
    next
      case (Inl e)
      with checked(3) have "bind_err (check_BCs params species this) (\<lambda>_.
           define_bcs species patch (select_remove species) this) = Inl e"
        by simp
      then have "e = OnlyRemoveRz \<or> e = OutOfRange \<or>
            (\<exists>i. e = PeriodicRequired (name species) i) \<or>
            (\<exists>w. e = UnknownBC Xmin w) \<or> (\<exists>w. e = UnknownBC Xmax w)"
      proof (rule bind_err_InlE)
        assume "check_BCs params species this = Inl e"
        from check_BCs_Inl[OF this] show ?thesis by blast
      next
        fix u
        assume "define_bcs species patch (select_remove species) this = Inl e"
        from define_bcs_rz_Inl[OF this rz] show ?thesis by blast
      qed
      with Inl show ?thesis by simp
    qed
  qed
next
  fix pbc
  assume "new_PartBoundCond params species patch = Inr pbc"
  then obtain xg yg zg this where
    lim: "define_limits params patch xg yg zg (init_members params) = Inr this" and
    bcs: "define_bcs species patch (select_remove species) this = Inr pbc"
    by (rule new_PartBoundCond_steps)
  have rz: "isRZ this"
    using define_limits_members(1)[OF lim] assms by simp
  show "bc_ymin pbc = None"
    using define_bcs_rz_Inr(2)[OF bcs rz] define_limits_members(6)[OF lim] by simp
  show "bc_ymax pbc = (if isYmax patch then Some remove_particle else None)"
    using define_bcs_rz_Inr(3)[OF bcs rz] define_limits_members(7)[OF lim] by simp
next
  fix v
  assume "tracked (particles species) \<or> vget2 (EM_BCs params) 1 0 \<noteq> Inr ''periodic''"
  with assms show "new_PartBoundCond params (with_inner_radius v species) patch
                   = new_PartBoundCond params species patch"
    by (rule new_PartBoundCond_rz_with_inner_radius)
qed

theorem C2_rz_outer_radius_witness:
  "geometry params_rz = ''3drz'' \<and>
   vget2 (boundary_conditions photon_rz_reflective) 1 1 = Inr ''reflective'' \<and>
   new_PartBoundCond params_rz photon_rz_reflective patch_whole = Inl OnlyRemoveRz \<and>
   vget2 (EM_BCs params_rz) 1 0 = Inr ''buneman'' \<and>
   boundary_conditions (with_inner_radius ''stop'' photon_rz_reflective)
     = [[''remove'', ''remove''], [''stop'', ''reflective'']] \<and>
   new_PartBoundCond params_rz (with_inner_radius ''stop'' photon_rz_reflective) patch_whole
     = Inl OnlyRemoveRz"
proof -
  have g: "geometry params_rz = ''3drz''"
    by (simp add: params_rz_def)
  have o: "vget2 (boundary_conditions photon_rz_reflective) 1 1 = Inr ''reflective''"
    by (simp add: photon_rz_reflective_def vget_def vget2_def)
  have r: "new_PartBoundCond params_rz photon_rz_reflective patch_whole = Inl OnlyRemoveRz"
    by (simp add: params_rz_def photon_rz_reflective_def patch_whole_def
        new_PartBoundCond_def global_max_def vget_def vget2_def init_members_def
        define_limits_def limits_x_def limits_y_def limits_yz_def check_BCs_def
        axis_mismatch_def side_mismatch_def select_remove_def define_bcs_def
        set_bc_xmin_def set_bc_xmax_def set_bc_rz_def define_bcs_transverse_def
        std_max_def std_min_def numeral_2_eq_2)
  have em: "vget2 (EM_BCs params_rz) 1 0 = Inr ''buneman''"
    by (simp add: params_rz_def vget_def vget2_def)
  have w: "boundary_conditions (with_inner_radius ''stop'' photon_rz_reflective)
     = [[''remove'', ''remove''], [''stop'', ''reflective'']]"
    by (simp add: with_inner_radius_def photon_rz_reflective_def)
  from C2_rz_outer_radius_only_remove[OF g, of photon_rz_reflective patch_whole] em
  have "new_PartBoundCond params_rz (with_inner_radius ''stop'' photon_rz_reflective)
          patch_whole
        = new_PartBoundCond params_rz photon_rz_reflective patch_whole"
    by simp
  with g o r em w show ?thesis by simp
qed

text \<open>
  C3, the code at the failing input: a photon species (mass zero) in the geometry
  \<open>3drz\<close>, \<open>remove\<close> on every configured face, on a patch that has every face at the
  global boundary. The faces Xmin and Xmax get \<^verbatim>\<open>remove_photon\<close>, the pointer chosen
  at lines 94 to 99; the outer radial face gets \<^verbatim>\<open>remove_particle\<close>, whose address
  line 244 writes out.
\<close>

theorem C3_rz_photon_gets_remove_particle:
  "mass photon_rz_remove = 0 \<and>
   boundary_conditions photon_rz_remove = [[''remove'', ''remove''], [''none'', ''remove'']] \<and>
   new_PartBoundCond params_rz photon_rz_remove patch_whole =
     Inr \<lparr>isRZ = True, nDim_particle = 3, nDim_field = 2,
          x_min = Some 0, x_max = Some 10, y_min = Some 0, y_max = Some 10,
          z_min = None, z_max = None,
          bc_xmin = Some remove_photon, bc_xmax = Some remove_photon,
          bc_ymin = None, bc_ymax = Some remove_particle,
          bc_zmin = None, bc_zmax = None\<rparr>"
  by (simp add: params_rz_def photon_rz_remove_def patch_whole_def
      new_PartBoundCond_def global_max_def vget_def vget2_def init_members_def
      define_limits_def limits_x_def limits_y_def limits_yz_def check_BCs_def
      axis_mismatch_def side_mismatch_def select_remove_def define_bcs_def
      set_bc_xmin_def set_bc_xmax_def set_bc_rz_def define_bcs_transverse_def
      std_max_def std_min_def numeral_2_eq_2)

text \<open>
  C4, the code at the failing input: three dimensions, \<open>thermalize\<close> on the y and z
  faces. The chain of Ymin (lines 144 to 160) knows the value and stores
  \<^verbatim>\<open>thermalize_particle\<close>; the chain of Zmin (lines 183 to 196) has no test for it and
  ends in the error of line 195, and so does the constructor.
\<close>

theorem C4_thermalize_unknown_on_z:
  "set_bc_ymin species_3d_thermalize patch_whole remove_particle (init_members params_3d)
     = Inr ((init_members params_3d)\<lparr>bc_ymin := Some thermalize_particle\<rparr>) \<and>
   set_bc_zmin species_3d_thermalize patch_whole remove_particle (init_members params_3d)
     = Inl (UnknownBC Zmin ''thermalize'') \<and>
   new_PartBoundCond params_3d species_3d_thermalize patch_whole
     = Inl (UnknownBC Zmin ''thermalize'')"
  by (simp add: params_3d_def species_3d_thermalize_def patch_whole_def
      new_PartBoundCond_def global_max_def vget_def vget2_def init_members_def
      define_limits_def limits_x_def limits_y_def limits_z_def limits_yz_def check_BCs_def
      axis_mismatch_def side_mismatch_def select_remove_def define_bcs_def
      set_bc_xmin_def set_bc_xmax_def set_bc_ymin_def set_bc_ymax_def set_bc_zmin_def
      define_bcs_transverse_def define_bcs_yz_def define_bcs_z_def
      std_max_def std_min_def numeral_2_eq_2 numeral_3_eq_3)

section \<open>The claims about the time loop\<close>

subsection \<open>Lemmas about the loop\<close>

lemma time_loop_traces:
  "(s, tr) \<in> set (time_loop fuel env s0) \<Longrightarrow> tr = step_trace env s"
proof (induction fuel arbitrary: s0)
  case 0
  then show ?case by simp
next
  case (Suc fuel)
  show ?case
  proof (cases "itime s0 \<le> n_time env \<and> \<not> exit_asap s0")
    case True
    with Suc.prems have "(s, tr) = (advance_time env s0, step_trace env (advance_time env s0))
        \<or> (s, tr) \<in> set (time_loop fuel env (end_of_step env (advance_time env s0)))"
      by (simp add: Let_def)
    then show ?thesis
      using Suc.IH by auto
  next
    case False
    with Suc.prems show ?thesis by simp
  qed
qed

lemma step_trace_frozen:
  assumes "\<not> time_fields_frozen env < time_dual s"
  shows "step_trace env s =
     [applyCollisions, dynamics, sumDensities, applyAntennas, MPI_Barrier,
      finalize_and_sort_parts, finalize_sync_and_bc_fields, runAllDiags,
      movWindow_restart, operate, movWindow_update, checkpoint_dump, omp_barrier]
     @ load_balance_phase env s @ print_phase env s"
  using assms by (simp add: step_trace_def maxwell_phase_def)

lemma step_trace_solved:
  assumes "time_fields_frozen env < time_dual s"
  shows "step_trace env s =
     [applyCollisions, dynamics, sumDensities, applyAntennas, MPI_Barrier,
      MPI_Barrier, patchedToCartesian, MPI_Barrier, solveMaxwell, cartesianToPatches,
      finalize_and_sort_parts, finalize_sync_and_bc_fields, runAllDiags,
      movWindow_restart, operate, movWindow_update, checkpoint_dump, omp_barrier]
     @ load_balance_phase env s @ print_phase env s"
  using assms by (simp add: step_trace_def maxwell_phase_def)

lemma set_load_balance_phase:
  "set (load_balance_phase env s) \<subseteq> {loadBal_restart, load_balance, loadBal_update}"
  by (auto simp: load_balance_phase_def)

lemma set_print_phase:
  "set (print_phase env s) \<subseteq> {print_timestep, timers_consolidate, omp_barrier}"
  by (auto simp: print_phase_def)

lemma filter_in_chain_load_balance_phase:
  "filter in_chain (load_balance_phase env s) =
     (if has_load_balancing env \<and> theTimeIsNow env (itime s) then [load_balance] else [])"
  by (simp add: load_balance_phase_def in_chain_def)

lemma filter_in_chain_print_phase: "filter in_chain (print_phase env s) = []"
  by (simp add: print_phase_def in_chain_def)

lemma time_loop_env_run:
  "time_loop 2 env_run (loop_start env_run 0 (1 / 2) False) = [first_iteration, second_iteration]"
  by (simp add: numeral_2_eq_2 loop_start_def env_run_def advance_time_def end_of_step_def
      step_trace_def maxwell_phase_def load_balance_phase_def print_phase_def
      first_iteration_def second_iteration_def Let_def)


subsection \<open>The claims\<close>

text \<open>
  C5: in every iteration of the loop the three calls of the Maxwell phase
  (\<^verbatim>\<open>patchedToCartesian\<close>, \<^verbatim>\<open>domain.solveMaxwell\<close>, \<^verbatim>\<open>cartesianToPatches\<close>) are all
  absent exactly when the dual time of the iteration does not exceed
  \<^verbatim>\<open>time_fields_frozen\<close> (the test of line 386 fails), that is when it is less than
  or equal to it, and all present exactly when it exceeds it.
\<close>

theorem C5_maxwell_skipped_iff_time_not_past_frozen:
  assumes "(s, tr) \<in> set (time_loop fuel env s0)"
  shows "(maxwell_skipped tr \<longleftrightarrow> \<not> time_dual s > time_fields_frozen env) \<and>
         (maxwell_skipped tr \<longleftrightarrow> time_dual s \<le> time_fields_frozen env) \<and>
         (maxwell_executed tr \<longleftrightarrow> time_dual s > time_fields_frozen env)"
proof -
  have tr: "tr = step_trace env s"
    using assms by (rule time_loop_traces)
  have lb: "patchedToCartesian \<notin> set (load_balance_phase env s)"
    "solveMaxwell \<notin> set (load_balance_phase env s)"
    "cartesianToPatches \<notin> set (load_balance_phase env s)"
    using set_load_balance_phase[of env s] by auto
  have pr: "patchedToCartesian \<notin> set (print_phase env s)"
    "solveMaxwell \<notin> set (print_phase env s)"
    "cartesianToPatches \<notin> set (print_phase env s)"
    using set_print_phase[of env s] by auto
  show ?thesis
  proof (cases "time_fields_frozen env < time_dual s")
    case True
    then show ?thesis
      unfolding tr step_trace_solved[OF True] maxwell_skipped_def maxwell_executed_def
      by simp
  next
    case False
    then show ?thesis
      unfolding tr step_trace_frozen[OF False] maxwell_skipped_def maxwell_executed_def
      using lb pr by simp
  qed
qed

theorem C5_maxwell_skipped_witness:
  "first_iteration \<in> set (time_loop 2 env_run (loop_start env_run 0 (1 / 2) False)) \<and>
   time_dual (fst first_iteration) = time_fields_frozen env_run \<and>
   maxwell_skipped (snd first_iteration) \<and>
   second_iteration \<in> set (time_loop 2 env_run (loop_start env_run 0 (1 / 2) False)) \<and>
   time_fields_frozen env_run < time_dual (fst second_iteration) \<and>
   maxwell_executed (snd second_iteration)"
proof -
  have m1: "(fst first_iteration, snd first_iteration)
      \<in> set (time_loop 2 env_run (loop_start env_run 0 (1 / 2) False))"
    by (simp add: time_loop_env_run)
  have m2: "(fst second_iteration, snd second_iteration)
      \<in> set (time_loop 2 env_run (loop_start env_run 0 (1 / 2) False))"
    by (simp add: time_loop_env_run)
  have t1: "time_dual (fst first_iteration) = time_fields_frozen env_run"
    by (simp add: first_iteration_def env_run_def)
  have t2: "time_fields_frozen env_run < time_dual (fst second_iteration)"
    by (simp add: second_iteration_def env_run_def)
  from C5_maxwell_skipped_iff_time_not_past_frozen[OF m1] t1
  have "maxwell_skipped (snd first_iteration)" by simp
  moreover from C5_maxwell_skipped_iff_time_not_past_frozen[OF m2] t2
  have "maxwell_executed (snd second_iteration)" by simp
  ultimately show ?thesis
    using m1 m2 t1 t2 by simp
qed

text \<open>
  C7: in every iteration of the loop, the calls of the chain appear once each and in
  this order: \<^verbatim>\<open>dynamics\<close>, \<^verbatim>\<open>sumDensities\<close>, the three calls of the Maxwell phase
  when the dual time is past \<^verbatim>\<open>time_fields_frozen\<close>, \<^verbatim>\<open>finalize_sync_and_bc_fields\<close>,
  \<^verbatim>\<open>runAllDiags\<close>, \<^verbatim>\<open>simWindow->operate\<close>, and \<^verbatim>\<open>load_balance\<close> when it is
  scheduled for the step. The trace is the program order of the calls of main, each
  returning before the next is issued.
\<close>

theorem C7_order_of_the_step:
  assumes "(s, tr) \<in> set (time_loop fuel env s0)"
  shows "filter in_chain tr =
     [dynamics, sumDensities]
     @ (if time_fields_frozen env < time_dual s
        then [patchedToCartesian, solveMaxwell, cartesianToPatches] else [])
     @ [finalize_sync_and_bc_fields, runAllDiags, operate]
     @ (if has_load_balancing env \<and> theTimeIsNow env (itime s) then [load_balance] else [])"
proof -
  have tr: "tr = step_trace env s"
    using assms by (rule time_loop_traces)
  show ?thesis
    unfolding tr step_trace_def
    by (simp add: filter_in_chain_load_balance_phase filter_in_chain_print_phase
        maxwell_phase_def in_chain_def)
qed

theorem C7_order_witness:
  "first_iteration \<in> set (time_loop 2 env_run (loop_start env_run 0 (1 / 2) False)) \<and>
   filter in_chain (snd first_iteration) =
     [dynamics, sumDensities, finalize_sync_and_bc_fields, runAllDiags, operate,
      load_balance] \<and>
   second_iteration \<in> set (time_loop 2 env_run (loop_start env_run 0 (1 / 2) False)) \<and>
   filter in_chain (snd second_iteration) =
     [dynamics, sumDensities, patchedToCartesian, solveMaxwell, cartesianToPatches,
      finalize_sync_and_bc_fields, runAllDiags, operate]"
proof -
  have m1: "(fst first_iteration, snd first_iteration)
      \<in> set (time_loop 2 env_run (loop_start env_run 0 (1 / 2) False))"
    by (simp add: time_loop_env_run)
  have m2: "(fst second_iteration, snd second_iteration)
      \<in> set (time_loop 2 env_run (loop_start env_run 0 (1 / 2) False))"
    by (simp add: time_loop_env_run)
  have "filter in_chain (snd first_iteration) =
     [dynamics, sumDensities, finalize_sync_and_bc_fields, runAllDiags, operate, load_balance]"
    unfolding C7_order_of_the_step[OF m1]
    by (simp add: first_iteration_def env_run_def)
  moreover have "filter in_chain (snd second_iteration) =
     [dynamics, sumDensities, patchedToCartesian, solveMaxwell, cartesianToPatches,
      finalize_sync_and_bc_fields, runAllDiags, operate]"
    unfolding C7_order_of_the_step[OF m2]
    by (simp add: second_iteration_def env_run_def)
  ultimately show ?thesis
    using m1 m2 by simp
qed

text \<open>
  C8, as the claim states it, fails in the second iteration of the run \<open>env_run\<close>: the
  Maxwell phase is executed, and there is no barrier over \<^verbatim>\<open>MPI_COMM_WORLD\<close> between
  \<^verbatim>\<open>domain.solveMaxwell\<close> and \<^verbatim>\<open>cartesianToPatches\<close>, and none after
  \<^verbatim>\<open>cartesianToPatches\<close> in the rest of the iteration (line 417 is a barrier of the
  threads of one process).
\<close>

theorem C8_no_barrier_before_scatter_counterexample:
  "second_iteration \<in> set (time_loop 2 env_run (loop_start env_run 0 (1 / 2) False)) \<and>
   maxwell_executed (snd second_iteration) \<and>
   between solveMaxwell cartesianToPatches (snd second_iteration) = [] \<and>
   after cartesianToPatches (snd second_iteration) =
     [finalize_and_sort_parts, finalize_sync_and_bc_fields, runAllDiags,
      movWindow_restart, operate, movWindow_update, checkpoint_dump, omp_barrier] \<and>
   MPI_Barrier \<notin> set (after cartesianToPatches (snd second_iteration))"
  by (simp add: time_loop_env_run second_iteration_def maxwell_executed_def
      between_def before_def after_def)

text \<open>
  C8, amended: in every iteration in which the Maxwell phase runs, a barrier over
  \<^verbatim>\<open>MPI_COMM_WORLD\<close> comes before \<^verbatim>\<open>patchedToCartesian\<close> and another one separates
  \<^verbatim>\<open>patchedToCartesian\<close> from \<^verbatim>\<open>domain.solveMaxwell\<close>; \<^verbatim>\<open>cartesianToPatches\<close>
  is the very next call after \<^verbatim>\<open>domain.solveMaxwell\<close>, and no such barrier follows
  it in the rest of the iteration.
\<close>

theorem C8_barriers_of_the_maxwell_phase:
  assumes "(s, tr) \<in> set (time_loop fuel env s0)"
    and "time_fields_frozen env < time_dual s"
  shows "MPI_Barrier \<in> set (before patchedToCartesian tr) \<and>
         MPI_Barrier \<in> set (between patchedToCartesian solveMaxwell tr) \<and>
         between solveMaxwell cartesianToPatches tr = [] \<and>
         MPI_Barrier \<notin> set (after cartesianToPatches tr)"
proof -
  have tr: "tr = step_trace env s"
    using assms(1) by (rule time_loop_traces)
  have lb: "MPI_Barrier \<notin> set (load_balance_phase env s)"
    using set_load_balance_phase[of env s] by auto
  have pr: "MPI_Barrier \<notin> set (print_phase env s)"
    using set_print_phase[of env s] by auto
  show ?thesis
    unfolding tr step_trace_solved[OF assms(2)] between_def before_def after_def
    using lb pr by simp
qed

theorem C8_barriers_witness:
  "second_iteration \<in> set (time_loop 2 env_run (loop_start env_run 0 (1 / 2) False)) \<and>
   time_fields_frozen env_run < time_dual (fst second_iteration) \<and>
   before patchedToCartesian (snd second_iteration) =
     [applyCollisions, dynamics, sumDensities, applyAntennas, MPI_Barrier, MPI_Barrier] \<and>
   between patchedToCartesian solveMaxwell (snd second_iteration) = [MPI_Barrier] \<and>
   MPI_Barrier \<in> set (between patchedToCartesian solveMaxwell (snd second_iteration))"
proof -
  have m2: "(fst second_iteration, snd second_iteration)
      \<in> set (time_loop 2 env_run (loop_start env_run 0 (1 / 2) False))"
    by (simp add: time_loop_env_run)
  have t2: "time_fields_frozen env_run < time_dual (fst second_iteration)"
    by (simp add: second_iteration_def env_run_def)
  have e: "before patchedToCartesian (snd second_iteration) =
     [applyCollisions, dynamics, sumDensities, applyAntennas, MPI_Barrier, MPI_Barrier] \<and>
     between patchedToCartesian solveMaxwell (snd second_iteration) = [MPI_Barrier]"
    by (simp add: second_iteration_def between_def before_def after_def)
  from C8_barriers_of_the_maxwell_phase[OF m2 t2] m2 t2 e show ?thesis
    by simp
qed

subsection \<open>The assignment along the loop\<close>

lemma effect_other: "e \<noteq> load_balance \<Longrightarrow> effect ops step d e = d"
  by (cases e) simp_all

lemma foldl_effect_without_load_balance:
  "load_balance \<notin> set tr \<Longrightarrow> foldl (effect ops step) d tr = d"
proof (induction tr arbitrary: d)
  case Nil
  then show ?case by simp
next
  case (Cons e tr)
  from Cons.prems have "e \<noteq> load_balance" and rest: "load_balance \<notin> set tr"
    by auto
  then have "effect ops step d e = d"
    by (simp add: effect_other)
  with Cons.IH[OF rest] show ?case by simp
qed

lemma load_balance_in_step_trace:
  "load_balance \<in> set (step_trace env s)
     \<longleftrightarrow> has_load_balancing env \<and> theTimeIsNow env (itime s)"
  by (simp add: step_trace_def maxwell_phase_def load_balance_phase_def print_phase_def)

lemma run_iteration_step_trace:
  "run_iteration ops (s, step_trace env s) d =
     (if has_load_balancing env \<and> theTimeIsNow env (itime s)
      then spec_load_balance ops (itime s) d else d)"
proof -
  have pr: "foldl (effect ops (itime s)) d' (print_phase env s) = d'" for d'
    using set_print_phase[of env s]
    by (intro foldl_effect_without_load_balance) auto
  have mx: "foldl (effect ops (itime s)) d' (maxwell_phase env s) = d'" for d'
    by (simp add: maxwell_phase_def)
  have lb: "foldl (effect ops (itime s)) d' (load_balance_phase env s) =
     (if has_load_balancing env \<and> theTimeIsNow env (itime s)
      then spec_load_balance ops (itime s) d' else d')" for d'
    by (simp add: load_balance_phase_def)
  show ?thesis
    by (simp add: run_iteration_def step_trace_def pr mx lb)
qed

lemma domain_history_step:
  "(it, (d, d')) \<in> set (zip its (domain_history ops its d0)) \<Longrightarrow>
   d' = run_iteration ops it d"
proof (induction its arbitrary: d0)
  case Nil
  then show ?case by simp
next
  case (Cons a its)
  then show ?case by auto
qed

text \<open>
  An assignment that is the one derived from the distribution of the patches stays so
  from iteration to iteration.
\<close>

lemma spec_load_balance_derived:
  "tile_assignment (spec_load_balance ops step d)
     = Some (derive_assignment ops (patch_count (spec_load_balance ops step d)))"
  by (simp add: spec_load_balance_def rebuild_def invalidate_def repartition_def)

lemma domain_history_derived:
  assumes "(it, (d, d')) \<in> set (zip its (domain_history ops its d0))"
    and "\<forall>(s, tr) \<in> set its. tr = step_trace env s"
    and "tile_assignment d0 = Some (derive_assignment ops (patch_count d0))"
  shows "tile_assignment d = Some (derive_assignment ops (patch_count d))"
  using assms
proof (induction its arbitrary: d0)
  case Nil
  then show ?case by simp
next
  case (Cons a its)
  obtain s tr where a: "a = (s, tr)" by (cases a)
  with Cons.prems(2) have tr: "tr = step_trace env s" by simp
  have next_ok: "tile_assignment (run_iteration ops a d0)
      = Some (derive_assignment ops (patch_count (run_iteration ops a d0)))"
    unfolding a tr run_iteration_step_trace
    using Cons.prems(3) by (simp add: spec_load_balance_derived)
  from Cons.prems(1) have "(it, (d, d')) = (a, (d0, run_iteration ops a d0))
      \<or> (it, (d, d')) \<in> set (zip its (domain_history ops its (run_iteration ops a d0)))"
    by simp
  then show ?case
  proof
    assume "(it, (d, d')) = (a, (d0, run_iteration ops a d0))"
    with Cons.prems(3) show ?thesis by simp
  next
    assume "(it, (d, d')) \<in> set (zip its (domain_history ops its (run_iteration ops a d0)))"
    moreover from Cons.prems(2) have "\<forall>(s, tr) \<in> set its. tr = step_trace env s" by simp
    ultimately show ?thesis
      using next_ok by (rule Cons.IH)
  qed
qed

text \<open>
  C9: run the iterations of the loop of main, the call of \<^verbatim>\<open>load_balance\<close> doing what
  the specification gives it and every other call leaving the assignment as it is. Then
  for every iteration, from the state \<open>d\<close> before it to the state \<open>d'\<close> after it:
  \<^item> \<^verbatim>\<open>load_balance\<close> is called exactly when load balancing is enabled and scheduled for
    the step (lines 421 and 422);
  \<^item> when it is called, the assignment is invalidated and rebuilt: \<open>d'\<close> is the state
    rebuilt from the invalidated state (which has no assignment) of the new distribution
    of the patches, and its assignment is the one derived from that distribution;
  \<^item> when it is not called, the state is as it was: the assignment is stable;
  \<^item> an assignment that was derived from the distribution of the patches when the loop
    started is so at the head of every iteration.
\<close>

theorem C9_assignment_rebuilt_after_load_balance:
  assumes "((s, tr), (d, d')) \<in>
             set (zip (time_loop fuel env s0) (domain_history ops (time_loop fuel env s0) d0))"
  shows "(load_balance \<in> set tr \<longleftrightarrow> has_load_balancing env \<and> theTimeIsNow env (itime s)) \<and>
         (load_balance \<in> set tr \<longrightarrow>
            d' = rebuild ops (invalidate (repartition ops (itime s) d)) \<and>
            tile_assignment (invalidate (repartition ops (itime s) d)) = None \<and>
            tile_assignment d' = Some (derive_assignment ops (patch_count d'))) \<and>
         (load_balance \<notin> set tr \<longrightarrow> d' = d) \<and>
         (tile_assignment d0 = Some (derive_assignment ops (patch_count d0)) \<longrightarrow>
            tile_assignment d = Some (derive_assignment ops (patch_count d)))"
proof -
  from assms have mem: "(s, tr) \<in> set (time_loop fuel env s0)"
    by (rule set_zip_leftD)
  then have tr: "tr = step_trace env s"
    by (rule time_loop_traces)
  have all: "\<forall>(s, tr) \<in> set (time_loop fuel env s0). tr = step_trace env s"
    using time_loop_traces by blast
  have d': "d' = run_iteration ops (s, tr) d"
    using assms by (rule domain_history_step)
  have called: "load_balance \<in> set tr \<longleftrightarrow> has_load_balancing env \<and> theTimeIsNow env (itime s)"
    unfolding tr by (rule load_balance_in_step_trace)
  have step: "d' = (if load_balance \<in> set tr then spec_load_balance ops (itime s) d else d)"
    unfolding d' called unfolding tr by (rule run_iteration_step_trace)
  have inv: "tile_assignment (invalidate (repartition ops (itime s) d)) = None"
    by (simp add: invalidate_def)
  have derived: "tile_assignment d0 = Some (derive_assignment ops (patch_count d0)) \<Longrightarrow>
      tile_assignment d = Some (derive_assignment ops (patch_count d))"
    using assms all by (rule domain_history_derived)
  show ?thesis
    using called step inv derived spec_load_balance_derived[of ops "itime s" d]
    by (simp add: spec_load_balance_def)
qed

theorem C9_assignment_rebuilt_witness:
  "zip (time_loop 2 env_run (loop_start env_run 0 (1 / 2) False))
       (domain_history ops_run (time_loop 2 env_run (loop_start env_run 0 (1 / 2) False))
          domain_start)
     = [(first_iteration, (domain_start, domain_balanced)),
        (second_iteration, (domain_balanced, domain_balanced))] \<and>
   load_balance \<in> set (snd first_iteration) \<and>
   domain_balanced
     = rebuild ops_run (invalidate (repartition ops_run (itime (fst first_iteration))
         domain_start)) \<and>
   tile_assignment domain_start \<noteq> tile_assignment domain_balanced \<and>
   load_balance \<notin> set (snd second_iteration)"
proof -
  have l1: "load_balance \<in> set (snd first_iteration)"
    by (simp add: first_iteration_def)
  have l2: "load_balance \<notin> set (snd second_iteration)"
    by (simp add: second_iteration_def)
  have r1: "run_iteration ops_run first_iteration domain_start = domain_balanced"
    by (simp add: run_iteration_def first_iteration_def spec_load_balance_def rebuild_def
        invalidate_def repartition_def ops_run_def domain_start_def domain_balanced_def)
  have r2: "run_iteration ops_run second_iteration domain_balanced = domain_balanced"
    by (simp add: run_iteration_def second_iteration_def)
  have z: "zip (time_loop 2 env_run (loop_start env_run 0 (1 / 2) False))
       (domain_history ops_run (time_loop 2 env_run (loop_start env_run 0 (1 / 2) False))
          domain_start)
     = [(first_iteration, (domain_start, domain_balanced)),
        (second_iteration, (domain_balanced, domain_balanced))]"
    by (simp add: time_loop_env_run r1 r2)
  have m: "((fst first_iteration, snd first_iteration), (domain_start, domain_balanced))
      \<in> set (zip (time_loop 2 env_run (loop_start env_run 0 (1 / 2) False))
          (domain_history ops_run (time_loop 2 env_run (loop_start env_run 0 (1 / 2) False))
             domain_start))"
    unfolding z by simp
  from C9_assignment_rebuilt_after_load_balance[OF m] l1
  have b: "domain_balanced
     = rebuild ops_run (invalidate (repartition ops_run (itime (fst first_iteration))
         domain_start))"
    by simp
  have n: "tile_assignment domain_start \<noteq> tile_assignment domain_balanced"
    by (simp add: domain_start_def domain_balanced_def)
  from z l1 b n l2 show ?thesis by simp
qed

end
